theory Spec2Isabelle
  imports Main "HOL-Library.Word" "HOL-Library.AList"
begin

section \<open>QR API service: a model of \<open>src/api/server.js\<close> and \<open>src/unnamed/part_000\<close>\<close>

text \<open>
  The service drives a headless browser (puppeteer) against a third-party page. Both
  source files define the same functions (\<open>getBrowser\<close>, \<open>generateQRCode\<close> and the two
  \<open>/generate\<close> handlers); \<open>src/api/server.js\<close> addresses the page's controls by id and
  reads the result back from a download directory (the spec's generation 2), and
  \<open>src/unnamed/part_000\<close> addresses them by label text and captures the result in the
  page (generation 1).

  Every \<open>await\<close> of the source is a step of a state-and-exception monad. The state holds
  what the process owns: the module variable \<open>browser\<close>, the live sessions, the open
  pages, the download directory and the log of every call made to the browser or the
  file system. What the outside world answers (which call throws, which elements the
  page has, which files a download leaves) is read from a \<open>world\<close>, a record of functions
  of the log so far, so one world describes a whole run of requests.

  Option values are modelled at their documented types: strings for the text, colour and
  enum fields, numbers for the numeric ones, each possibly absent (\<open>undefined\<close>).

  A JavaScript string is held as an Isabelle string, each character standing for the
  UTF-16 code unit of the same code: the model covers the strings whose code units are
  below 256. A number is an integer-valued double, \<open>NaN\<close> or an infinity: \<open>Num i\<close> stands
  for the double nearest to \<open>i\<close>, and both zeros are \<open>Num 0\<close> (\<open>String\<close> prints them alike).
  Fractions are outside the model: \<open>parseInt\<close> yields none, and the documented type of the
  numeric options is the integer.
\<close>

subsection \<open>Values\<close>

datatype error = Error string

fun message :: "error \<Rightarrow> string" where
  "message (Error m) = m"

datatype jsnum = Num int | NaN | Infinity | MinusInfinity

type_synonym buffer = "8 word list"

text \<open>
  \<open>Buffer.from(s, 'utf-8')\<close>: the UTF-8 encoding of the string, one byte for a code unit
  below 128 and two bytes for the others.
\<close>

definition utf8 :: "char \<Rightarrow> 8 word list" where
  "utf8 c =
     (let n = (of_char c :: nat)
      in if n < 128 then [of_nat n] else [of_nat (192 + n div 64), of_nat (128 + n mod 64)])"

definition Buffer_from :: "string \<Rightarrow> buffer" where
  "Buffer_from s = concat (map utf8 s)"

text \<open>The truth value of an optional string: \<open>undefined\<close> and \<open>''\<close> are falsy.\<close>

definition truthy :: "string option \<Rightarrow> bool" where
  "truthy v = (case v of None \<Rightarrow> False | Some s \<Rightarrow> s \<noteq> [])"

text \<open>A destructuring default \<open>x = d\<close>: it applies to \<open>undefined\<close> only.\<close>

definition orDefault :: "'a \<Rightarrow> 'a option \<Rightarrow> 'a" where
  "orDefault d v = (case v of None \<Rightarrow> d | Some x \<Rightarrow> x)"

definition digit_char :: "nat \<Rightarrow> char" where
  "digit_char d = ''0123456789'' ! d"

fun show_nat :: "nat \<Rightarrow> string" where
  "show_nat n = (if n < 10 then [digit_char n] else show_nat (n div 10) @ [digit_char (n mod 10)])"

declare show_nat.simps [simp del]

text \<open>
  The double nearest to a natural number: with more than 53 bits, the bits beyond the
  53rd are rounded off, a tie going to the even neighbour; from \<open>2^1024\<close> on the result is
  infinite (\<open>None\<close>).
\<close>

fun bits :: "nat \<Rightarrow> nat" where
  "bits n = (if n = 0 then 0 else Suc (bits (n div 2)))"

declare bits.simps [simp del]

definition to_double :: "nat \<Rightarrow> nat option" where
  "to_double n =
     (let e = bits n - 53; q = n div 2 ^ e; r = n mod 2 ^ e;
          v = (if 2 * r < 2 ^ e \<or> (2 * r = 2 ^ e \<and> even q) then q else q + 1) * 2 ^ e
      in if v < 2 ^ 1024 then Some v else None)"

text \<open>
  \<open>String(value)\<close> on a number (\<open>Number::toString\<close>): the digits are those of the decimal
  number with the fewest significant digits that the double \<open>x\<close> is nearest to, the closest
  to \<open>x\<close> if there are two; below \<open>10^21\<close> they are printed in full, and in exponent notation
  from there on.
\<close>

fun digits10 :: "nat \<Rightarrow> nat" where
  "digits10 n = (if n < 10 then 1 else Suc (digits10 (n div 10)))"

declare digits10.simps [simp del]

text \<open>The two neighbours of \<open>x\<close> with at most \<open>k\<close> significant digits, those that round
  to \<open>x\<close>.\<close>

definition round_trips :: "nat \<Rightarrow> nat \<Rightarrow> nat list" where
  "round_trips x k =
     (let m = digits10 x - k; lo = x div 10 ^ m * 10 ^ m
      in filter (\<lambda>v. to_double v = Some x) [lo, lo + 10 ^ m])"

definition shortest :: "nat \<Rightarrow> nat" where
  "shortest x =
     (case List.find (\<lambda>k. round_trips x k \<noteq> []) [1..<Suc (digits10 x)] of
        None \<Rightarrow> x
      | Some k \<Rightarrow>
          (case round_trips x k of
             [lo, hi] \<Rightarrow>
               if x - lo < hi - x \<or> (x - lo = hi - x \<and> even (lo div 10 ^ (digits10 x - k)))
               then lo else hi
           | v # _ \<Rightarrow> v
           | [] \<Rightarrow> x))"

fun strip_zeros :: "nat \<Rightarrow> nat" where
  "strip_zeros n = (if n = 0 \<or> n mod 10 \<noteq> 0 then n else strip_zeros (n div 10))"

declare strip_zeros.simps [simp del]

definition String_double :: "nat \<Rightarrow> string" where
  "String_double x =
     (let v = shortest x in
      if v < 10 ^ 21 then show_nat v
      else
        (let ds = show_nat (strip_zeros v); e = show_nat (digits10 v - 1)
         in if length ds = 1 then ds @ ''e+'' @ e
            else hd ds # CHR ''.'' # tl ds @ ''e+'' @ e))"

fun String_num :: "jsnum \<Rightarrow> string" where
  "String_num NaN = ''NaN''"
| "String_num Infinity = ''Infinity''"
| "String_num MinusInfinity = ''-Infinity''"
| "String_num (Num i) =
     (case to_double (nat (abs i)) of
        None \<Rightarrow> if i < 0 then ''-Infinity'' else ''Infinity''
      | Some x \<Rightarrow> if i < 0 then CHR ''-'' # String_double x else String_double x)"

text \<open>\<open>f.endsWith(suffix)\<close>.\<close>

definition endsWith :: "string \<Rightarrow> string \<Rightarrow> bool" where
  "endsWith f suf = (length suf \<le> length f \<and> drop (length f - length suf) f = suf)"

record options =
  data :: "string option"
  logoUrl :: "string option"
  backgroundColor :: "string option"
  dotsColor :: "string option"
  cornersSquareColor :: "string option"
  cornersDotColor :: "string option"
  width :: "jsnum option"
  height :: "jsnum option"
  borderRadius :: "jsnum option"
  margin :: "jsnum option"
  imageMargin :: "jsnum option"
  dotsType :: "string option"
  cornersSquareType :: "string option"
  cornersDotType :: "string option"
  errorCorrectionLevel :: "string option"
  format :: "string option"

subsection \<open>The browser, the file system and the log\<close>

type_synonym handle = nat

text \<open>
  One constructor per kind of call the two files make. The number in the label, button
  and group actions is the position of the element in the list the query returned.
\<close>

datatype action =
    Launch
  | NewPage handle
  | SetViewport handle nat nat
  | Goto handle string
  | WaitForSelector handle string
  | Query handle string
  | QueryAll handle string
  | SetValue handle string string
  | Click handle string
  | TripleClick handle string
  | TypeText handle string string
  | TextContent handle nat
  | Closest handle nat
  | QueryIn handle nat string
  | SetValueIn handle nat string string
  | TripleClickIn handle nat string
  | TypeTextIn handle nat string string
  | ClickLabel handle nat
  | GetState handle nat
  | ClickButton handle nat
  | EvalSvg handle
  | Screenshot handle string
  | Sleep nat
  | Mkdir string
  | CreateCDPSession handle
  | SetDownloadBehavior handle string
  | Readdir string
  | ReadFile string
  | Unlink string
  | ClosePage handle

text \<open>A \<open>label\<close> element as the generation-1 helpers see it: its text, and whether
  \<open>closest('.flex')\<close> finds a group and which inputs that group holds. The code reads no
  more of it; \<open>controls\<close> is what a click on the label does in the page: it names the form
  field whose radio button the label belongs to, if it belongs to one.\<close>

record flex_group =
  has_color_input :: bool
  has_text_input :: bool

record label_elem =
  textContent :: string
  flex :: "flex_group option"
  controls :: "string option"

text \<open>
  \<open>landed\<close> is what the browser has written into the download directory, under which
  names; \<open>dir_order\<close> ranks the names of the directory for \<open>fs.readdir\<close>, whose order is
  that of the file system.
\<close>

record world =
  fault :: "action list \<Rightarrow> action \<Rightarrow> error option"
  found :: "action list \<Rightarrow> string \<Rightarrow> bool"
  landed :: "action list \<Rightarrow> (string \<times> buffer) list"
  dir_order :: "action list \<Rightarrow> string \<Rightarrow> nat"
  labels :: "action list \<Rightarrow> label_elem list"
  buttons :: "action list \<Rightarrow> nat"
  data_state :: "action list \<Rightarrow> nat \<Rightarrow> string"
  svg_markup :: "action list \<Rightarrow> string option"
  shot :: "action list \<Rightarrow> string \<Rightarrow> buffer"

text \<open>\<open>files\<close> is the directory \<open>/tmp/qr-downloads\<close>: its names, each with its content.\<close>

record state =
  browser :: "handle option"
  sessions :: "handle list"
  pages :: "handle list"
  next_id :: handle
  files :: "(string \<times> buffer) list"
  trace :: "action list"

definition init :: state where
  "init = \<lparr>browser = None, sessions = [], pages = [], next_id = 0, files = [], trace = []\<rparr>"

type_synonym 'a prog = "state \<Rightarrow> (error + 'a) \<times> state"

definition resolve :: "'a \<Rightarrow> 'a prog" where
  "resolve x s = (Inr x, s)"

definition throw :: "error \<Rightarrow> 'a prog" where
  "throw e s = (Inl e, s)"

text \<open>\<open>const x = await m; f x\<close>: a rejected promise ends the sequence.\<close>

definition await :: "'a prog \<Rightarrow> ('a \<Rightarrow> 'b prog) \<Rightarrow> 'b prog" where
  "await m f s = (case m s of (Inl e, s1) \<Rightarrow> (Inl e, s1) | (Inr x, s1) \<Rightarrow> f x s1)"

fun seq :: "unit prog list \<Rightarrow> unit prog" where
  "seq [] = resolve ()"
| "seq (m # ms) = await m (\<lambda>_. seq ms)"

text \<open>\<open>if (c) { await m }\<close>.\<close>

definition ifThen :: "bool \<Rightarrow> unit prog \<Rightarrow> unit prog" where
  "ifThen c m = (if c then m else resolve ())"

text \<open>\<open>try { m } finally { c }\<close>: \<open>c\<close> runs on every exit of \<open>m\<close>; an error of \<open>c\<close>
  replaces the outcome of \<open>m\<close>.\<close>

definition try_finally :: "'a prog \<Rightarrow> unit prog \<Rightarrow> 'a prog" where
  "try_finally m c s =
     (case m s of (r, s1) \<Rightarrow>
        (case c s1 of (Inl e, s2) \<Rightarrow> (Inl e, s2) | (Inr _, s2) \<Rightarrow> (r, s2)))"

text \<open>One call to the outside: it is logged, and the world says whether it throws.\<close>

definition act :: "world \<Rightarrow> action \<Rightarrow> unit prog" where
  "act w a s =
     (case fault w (trace s) a of
        Some e \<Rightarrow> (Inl e, s\<lparr>trace := trace s @ [a]\<rparr>)
      | None \<Rightarrow> (Inr (), s\<lparr>trace := trace s @ [a]\<rparr>))"

text \<open>A call that returns something the world decides, read at the log after the call.\<close>

definition ask :: "world \<Rightarrow> action \<Rightarrow> (action list \<Rightarrow> 'a) \<Rightarrow> 'a prog" where
  "ask w a f = await (act w a) (\<lambda>_ s. (Inr (f (trace s)), s))"

text \<open>\<open>setTimeout\<close> wrapped in a promise: it never rejects.\<close>

definition sleep :: "nat \<Rightarrow> unit prog" where
  "sleep ms s = (Inr (), s\<lparr>trace := trace s @ [Sleep ms]\<rparr>)"

subsection \<open>\<open>getBrowser\<close> (server.js 15-33, part_000 15-31, the same text)\<close>

text \<open>A launched session gets a fresh handle. \<open>!browser\<close> is true exactly for \<open>null\<close>.\<close>

definition getBrowser :: "world \<Rightarrow> handle prog" where
  "getBrowser w s =
     (case browser s of
        Some b \<Rightarrow> (Inr b, s)
      | None \<Rightarrow>
          (case act w Launch s of
             (Inl e, s1) \<Rightarrow> (Inl e, s1)
           | (Inr _, s1) \<Rightarrow>
               (Inr (next_id s1),
                s1\<lparr>browser := Some (next_id s1),
                   sessions := sessions s1 @ [next_id s1],
                   next_id := Suc (next_id s1)\<rparr>)))"

text \<open>\<open>browserInstance.newPage()\<close>: a fresh page, open until it is closed.\<close>

definition newPage :: "world \<Rightarrow> handle \<Rightarrow> handle prog" where
  "newPage w b s =
     (case act w (NewPage b) s of
        (Inl e, s1) \<Rightarrow> (Inl e, s1)
      | (Inr _, s1) \<Rightarrow>
          (Inr (next_id s1), s1\<lparr>pages := pages s1 @ [next_id s1], next_id := Suc (next_id s1)\<rparr>))"

text \<open>
  \<open>page.close()\<close>. puppeteer rejects it only if the target or the connection is already
  gone, so the page is not open afterwards in either case.
\<close>

definition closePage :: "world \<Rightarrow> handle \<Rightarrow> unit prog" where
  "closePage w p s =
     (case act w (ClosePage p) s of
        (r, s1) \<Rightarrow> (r, s1\<lparr>pages := filter (\<lambda>q. q \<noteq> p) (pages s1)\<rparr>))"

definition MINI_QR_URL :: string where
  "MINI_QR_URL = ''http://mini-qr:80''"

subsection \<open>Generation 2: \<open>generateQRCode\<close> of \<open>src/api/server.js\<close>\<close>

definition DOT_TYPES :: "string list" where
  "DOT_TYPES = [''dots'', ''rounded'', ''classy'', ''classy-rounded'', ''square'', ''extra-rounded'']"

definition CORNER_SQUARE_TYPES :: "string list" where
  "CORNER_SQUARE_TYPES = [''dot'', ''square'', ''extra-rounded'']"

definition CORNER_DOT_TYPES :: "string list" where
  "CORNER_DOT_TYPES = [''dot'', ''square'']"

definition ERROR_CORRECTION_LEVELS :: "string list" where
  "ERROR_CORRECTION_LEVELS = [''L'', ''M'', ''Q'', ''H'']"

text \<open>\<open>page.$(sel)\<close>: whether an element matches.\<close>

definition query :: "world \<Rightarrow> handle \<Rightarrow> string \<Rightarrow> bool prog" where
  "query w p sel = ask w (Query p sel) (\<lambda>h. found w h sel)"

definition setInputById :: "world \<Rightarrow> handle \<Rightarrow> string \<Rightarrow> string \<Rightarrow> unit prog" where
  "setInputById w p i v =
     await (query w p (''#'' @ i)) (\<lambda>input. ifThen input (act w (SetValue p (''#'' @ i) v)))"

definition setColorById :: "world \<Rightarrow> handle \<Rightarrow> string \<Rightarrow> string \<Rightarrow> unit prog" where
  "setColorById w p i color =
     await (query w p (''#'' @ i)) (\<lambda>input. ifThen input (act w (SetValue p (''#'' @ i) color)))"

definition selectRadioById :: "world \<Rightarrow> handle \<Rightarrow> string \<Rightarrow> unit prog" where
  "selectRadioById w p i =
     await (query w p (''#'' @ i)) (\<lambda>radio. ifThen radio (act w (Click p (''#'' @ i))))"

definition downloadPath :: string where
  "downloadPath = ''/tmp/qr-downloads''"

text \<open>Lines 170-174 and 183.\<close>

definition buttonId :: "string \<Rightarrow> string" where
  "buttonId fmt =
     (if fmt = ''svg'' then ''download-qr-image-button-svg''
      else if fmt = ''jpeg'' then ''download-qr-image-button-jpg''
      else ''download-qr-image-button-png'')"

definition ext :: "string \<Rightarrow> string" where
  "ext fmt = (if fmt = ''jpeg'' then ''jpg'' else fmt)"

text \<open>Lines 136-154: each enum field is clicked only when its value is a known one.\<close>

definition set_dot_type :: "world \<Rightarrow> options \<Rightarrow> handle \<Rightarrow> unit prog" where
  "set_dot_type w opts p =
     (let t = orDefault ''square'' (dotsType opts) in
      ifThen (t \<noteq> [] \<and> t \<in> set DOT_TYPES) (selectRadioById w p (''dotsOptionsType-'' @ t)))"

definition set_corner_square_type :: "world \<Rightarrow> options \<Rightarrow> handle \<Rightarrow> unit prog" where
  "set_corner_square_type w opts p =
     (let t = orDefault ''square'' (cornersSquareType opts) in
      ifThen (t \<noteq> [] \<and> t \<in> set CORNER_SQUARE_TYPES)
        (selectRadioById w p (''cornersSquareOptionsType-'' @ t)))"

definition set_corner_dot_type :: "world \<Rightarrow> options \<Rightarrow> handle \<Rightarrow> unit prog" where
  "set_corner_dot_type w opts p =
     (let t = orDefault ''square'' (cornersDotType opts) in
      ifThen (t \<noteq> [] \<and> t \<in> set CORNER_DOT_TYPES)
        (selectRadioById w p (''cornersDotOptionsType-'' @ t)))"

definition set_error_correction_level :: "world \<Rightarrow> options \<Rightarrow> handle \<Rightarrow> unit prog" where
  "set_error_correction_level w opts p =
     (let t = orDefault ''M'' (errorCorrectionLevel opts) in
      ifThen (t \<noteq> [] \<and> t \<in> set ERROR_CORRECTION_LEVELS)
        (selectRadioById w p (''errorCorrectionLevel-'' @ t)))"

text \<open>Lines 111-154: the form is filled in.\<close>

definition fill_form :: "world \<Rightarrow> options \<Rightarrow> string \<Rightarrow> handle \<Rightarrow> unit prog" where
  "fill_form w opts d p =
     seq [
       setInputById w p ''data'' d,
       ifThen (truthy (logoUrl opts)) (setInputById w p ''image-url'' (orDefault [] (logoUrl opts))),
       setColorById w p ''background-color'' (orDefault ''#ffffff'' (backgroundColor opts)),
       setColorById w p ''dots-color'' (orDefault ''#000000'' (dotsColor opts)),
       ifThen (truthy (cornersSquareColor opts))
         (setColorById w p ''corners-square-color'' (orDefault [] (cornersSquareColor opts))),
       ifThen (truthy (cornersDotColor opts))
         (setColorById w p ''corners-dot-color'' (orDefault [] (cornersDotColor opts))),
       setInputById w p ''width'' (String_num (orDefault (Num 300) (width opts))),
       setInputById w p ''height'' (String_num (orDefault (Num 300) (height opts))),
       setInputById w p ''border-radius'' (String_num (orDefault (Num 0) (borderRadius opts))),
       setInputById w p ''margin'' (String_num (orDefault (Num 10) (margin opts))),
       setInputById w p ''image-margin'' (String_num (orDefault (Num 0) (imageMargin opts))),
       set_dot_type w opts p,
       set_corner_square_type w opts p,
       set_corner_dot_type w opts p,
       set_error_correction_level w opts p
     ]"

text \<open>Lines 69-167: the page is opened, the form filled in and the download directory
  set up.\<close>

definition prepare :: "world \<Rightarrow> options \<Rightarrow> string \<Rightarrow> handle \<Rightarrow> unit prog" where
  "prepare w opts d p =
     seq [
       act w (SetViewport p 1280 900),
       act w (Goto p MINI_QR_URL),
       act w (WaitForSelector p ''#data''),
       fill_form w opts d p,
       sleep 1000,
       act w (Mkdir downloadPath),
       act w (CreateCDPSession p),
       act w (SetDownloadBehavior p downloadPath)
     ]"

text \<open>
  A file written into the directory takes the place of the file of that name, if there
  is one. (A browser that picks a new name instead is a world whose \<open>landed\<close> names are
  new.)
\<close>

definition write_files :: "(string \<times> buffer) list \<Rightarrow> (string \<times> buffer) list \<Rightarrow> (string \<times> buffer) list" where
  "write_files new dir = fold (\<lambda>e. AList.update (fst e) (snd e)) new dir"

text \<open>
  Lines 169-179: the export control is clicked and the code waits two seconds; the files
  the browser has written by then are in the directory.
\<close>

definition click_download :: "world \<Rightarrow> handle \<Rightarrow> string \<Rightarrow> unit prog" where
  "click_download w p fmt =
     await (act w (Click p (''#'' @ buttonId fmt))) (\<lambda>_.
     await (sleep 2000) (\<lambda>_ s.
       (Inr (), s\<lparr>files := write_files (landed w (trace s)) (files s)\<rparr>)))"

text \<open>\<open>fs.readdir\<close>: the names in the directory, in the order the system lists them: by
  the rank the world gives them.\<close>

definition readdir :: "world \<Rightarrow> string \<Rightarrow> string list prog" where
  "readdir w dir =
     await (act w (Readdir dir)) (\<lambda>_ s.
       (Inr (sort_key (dir_order w (trace s)) (map fst (files s))), s))"

definition readFile :: "world \<Rightarrow> string \<Rightarrow> string \<Rightarrow> buffer prog" where
  "readFile w dir f =
     await (act w (ReadFile (dir @ ''/'' @ f))) (\<lambda>_ s.
       (case map_of (files s) f of
          None \<Rightarrow> (Inl (Error ''ENOENT: no such file or directory''), s)
        | Some b \<Rightarrow> (Inr b, s)))"

definition unlink :: "world \<Rightarrow> string \<Rightarrow> string \<Rightarrow> unit prog" where
  "unlink w dir f =
     await (act w (Unlink (dir @ ''/'' @ f))) (\<lambda>_ s.
       (Inr (), s\<lparr>files := AList.delete f (files s)\<rparr>))"

text \<open>Lines 181-196: the download is found, read and removed.\<close>

definition read_download :: "world \<Rightarrow> string \<Rightarrow> buffer prog" where
  "read_download w fmt =
     await (readdir w downloadPath) (\<lambda>fs.
       (case List.find (\<lambda>f. endsWith f (''.'' @ ext fmt)) fs of
          None \<Rightarrow> throw (Error ''Download failed - no file found'')
        | Some downloadedFile \<Rightarrow>
            await (readFile w downloadPath downloadedFile) (\<lambda>imageBuffer.
            await (unlink w downloadPath downloadedFile) (\<lambda>_.
            resolve imageBuffer))))"

text \<open>Lines 69-196: the body of the \<open>try\<close>.\<close>

definition session :: "world \<Rightarrow> options \<Rightarrow> string \<Rightarrow> handle \<Rightarrow> buffer prog" where
  "session w opts d p =
     await (prepare w opts d p) (\<lambda>_.
     await (click_download w p (orDefault ''png'' (format opts))) (\<lambda>_.
     read_download w (orDefault ''png'' (format opts))))"

definition generateQRCode :: "world \<Rightarrow> options \<Rightarrow> buffer prog" where
  "generateQRCode w opts =
     (case data opts of
        None \<Rightarrow> throw (Error ''Data to encode is required'')
      | Some d \<Rightarrow>
          if d = [] then throw (Error ''Data to encode is required'')
          else
            await (getBrowser w) (\<lambda>browserInstance.
            await (newPage w browserInstance) (\<lambda>page.
            try_finally (session w opts d page) (closePage w page))))"

subsection \<open>Generation 1: \<open>generateQRCode\<close> of \<open>src/unnamed/part_000\<close>\<close>

definition DOT_TYPES_v1 :: "string list" where
  "DOT_TYPES_v1 = [''square'', ''rounded'', ''dots'', ''classy'', ''classy-rounded'', ''extra-rounded'']"

definition CORNER_SQUARE_TYPES_v1 :: "string list" where
  "CORNER_SQUARE_TYPES_v1 =
     [''square'', ''rounded'', ''dots'', ''classy'', ''classy-rounded'', ''extra-rounded'']"

definition CORNER_DOT_TYPES_v1 :: "string list" where
  "CORNER_DOT_TYPES_v1 = [''square'', ''rounded'', ''dot'']"

text \<open>
  Here \<open>ERROR_CORRECTION_LEVELS\<close> is an object literal read with \<open>[key]\<close>, so a key it does
  not own is looked up in \<open>Object.prototype\<close>: such a key yields a function or an object,
  which is truthy and is no string.
\<close>

datatype jsval = JStr string | JObj

definition Object_prototype_keys :: "string list" where
  "Object_prototype_keys =
     [''constructor'', ''__defineGetter__'', ''__defineSetter__'', ''hasOwnProperty'',
      ''__lookupGetter__'', ''__lookupSetter__'', ''isPrototypeOf'', ''propertyIsEnumerable'',
      ''toString'', ''valueOf'', ''__proto__'', ''toLocaleString'']"

definition ERROR_CORRECTION_LEVELS_v1 :: "string \<Rightarrow> jsval option" where
  "ERROR_CORRECTION_LEVELS_v1 k =
     (if k = ''L'' then Some (JStr ''Low (7%)'')
      else if k = ''M'' then Some (JStr ''Medium (15%)'')
      else if k = ''Q'' then Some (JStr ''High (25%)'')
      else if k = ''H'' then Some (JStr ''Highest (30%)'')
      else if k \<in> set Object_prototype_keys then Some JObj
      else None)"

text \<open>\<open>text.includes(sub)\<close>.\<close>

fun str_includes :: "string \<Rightarrow> string \<Rightarrow> bool" where
  "str_includes [] sub = (sub = [])"
| "str_includes (c # cs) sub = (take (length sub) (c # cs) = sub \<or> str_includes cs sub)"

text \<open>
  The white space and line terminators of ECMAScript with a code unit below 256: tab,
  line feed, vertical tab, form feed, carriage return, space and no-break space.
\<close>

definition is_space :: "char \<Rightarrow> bool" where
  "is_space c =
     (c \<in> set [CHR 0x09, CHR 0x0A, CHR 0x0B, CHR 0x0C, CHR 0x0D, CHR 0x20, CHR 0xA0])"

text \<open>\<open>text.trim()\<close>.\<close>

definition trim :: "string \<Rightarrow> string" where
  "trim s = rev (dropWhile is_space (rev (dropWhile is_space s)))"

text \<open>\<open>page.$$('label')\<close>, each label with its position.\<close>

definition query_labels :: "world \<Rightarrow> handle \<Rightarrow> (nat \<times> label_elem) list prog" where
  "query_labels w p = ask w (QueryAll p ''label'') (\<lambda>h. enumerate 0 (labels w h))"

text \<open>Lines 87-104. \<open>closest\<close> yielding \<open>null\<close> makes \<open>parent.$\<close> a call of \<open>undefined\<close>.\<close>

fun setColorInput_loop ::
  "world \<Rightarrow> handle \<Rightarrow> string \<Rightarrow> string \<Rightarrow> (nat \<times> label_elem) list \<Rightarrow> unit prog" where
  "setColorInput_loop w p labelText color [] = resolve ()"
| "setColorInput_loop w p labelText color (il # rest) =
     await (ask w (TextContent p (fst il)) (\<lambda>_. textContent (snd il))) (\<lambda>text.
       if str_includes text labelText then
         await (ask w (Closest p (fst il)) (\<lambda>_. flex (snd il))) (\<lambda>parent.
           case parent of
             None \<Rightarrow> throw (Error ''parent.$ is not a function'')
           | Some g \<Rightarrow>
               await (ask w (QueryIn p (fst il) ''input.color-input'') (\<lambda>_. has_color_input g))
                 (\<lambda>colorInput.
                    ifThen colorInput (act w (SetValueIn p (fst il) ''input.color-input'' color))))
       else setColorInput_loop w p labelText color rest)"

definition setColorInput :: "world \<Rightarrow> handle \<Rightarrow> string \<Rightarrow> string \<Rightarrow> unit prog" where
  "setColorInput w p labelText color =
     await (query_labels w p) (setColorInput_loop w p labelText color)"

text \<open>Lines 107-121.\<close>

fun setTextInputByLabel_loop ::
  "world \<Rightarrow> handle \<Rightarrow> string \<Rightarrow> string \<Rightarrow> (nat \<times> label_elem) list \<Rightarrow> unit prog" where
  "setTextInputByLabel_loop w p labelText v [] = resolve ()"
| "setTextInputByLabel_loop w p labelText v (il # rest) =
     await (ask w (TextContent p (fst il)) (\<lambda>_. textContent (snd il))) (\<lambda>text.
       if str_includes text labelText then
         await (ask w (Closest p (fst il)) (\<lambda>_. flex (snd il))) (\<lambda>parent.
           case parent of
             None \<Rightarrow> throw (Error ''parent.$ is not a function'')
           | Some g \<Rightarrow>
               await (ask w (QueryIn p (fst il) ''input.text-input'') (\<lambda>_. has_text_input g))
                 (\<lambda>input.
                    ifThen input
                      (await (act w (TripleClickIn p (fst il) ''input.text-input'')) (\<lambda>_.
                       act w (TypeTextIn p (fst il) ''input.text-input'' v)))))
       else setTextInputByLabel_loop w p labelText v rest)"

definition setTextInputByLabel :: "world \<Rightarrow> handle \<Rightarrow> string \<Rightarrow> string \<Rightarrow> unit prog" where
  "setTextInputByLabel w p labelText v =
     await (query_labels w p) (setTextInputByLabel_loop w p labelText v)"

text \<open>Lines 124-133: \<open>===\<close> holds only between a string and an equal string.\<close>

fun selectRadioOption_loop ::
  "world \<Rightarrow> handle \<Rightarrow> jsval \<Rightarrow> (nat \<times> label_elem) list \<Rightarrow> unit prog" where
  "selectRadioOption_loop w p optionValue [] = resolve ()"
| "selectRadioOption_loop w p optionValue (il # rest) =
     await (ask w (TextContent p (fst il)) (\<lambda>_. trim (textContent (snd il)))) (\<lambda>text.
       if JStr text = optionValue then act w (ClickLabel p (fst il))
       else selectRadioOption_loop w p optionValue rest)"

definition selectRadioOption :: "world \<Rightarrow> handle \<Rightarrow> jsval \<Rightarrow> unit prog" where
  "selectRadioOption w p optionValue =
     await (query_labels w p) (selectRadioOption_loop w p optionValue)"

text \<open>Lines 136-143: every closed accordion section is opened.\<close>

definition expand_button :: "world \<Rightarrow> handle \<Rightarrow> nat \<Rightarrow> unit prog" where
  "expand_button w p i =
     await (ask w (GetState p i) (\<lambda>h. data_state w h i)) (\<lambda>st.
       ifThen (st = ''closed'') (await (act w (ClickButton p i)) (\<lambda>_. sleep 200)))"

definition expand_accordion :: "world \<Rightarrow> handle \<Rightarrow> unit prog" where
  "expand_accordion w p =
     await (ask w (QueryAll p ''button[data-state]'') (buttons w)) (\<lambda>n.
       seq (map (expand_button w p) [0..<n]))"

text \<open>Lines 82-84: \<open>page.$\<close> yielding \<open>null\<close> makes \<open>dataInput.click\<close> a \<open>TypeError\<close>.\<close>

definition type_data :: "world \<Rightarrow> handle \<Rightarrow> string \<Rightarrow> unit prog" where
  "type_data w p d =
     await (query w p ''input.text-input'') (\<lambda>dataInput.
       if \<not> dataInput then throw (Error ''Cannot read properties of null (reading 'click')'')
       else
         await (act w (TripleClick p ''input.text-input'')) (\<lambda>_.
         act w (TypeText p ''input.text-input'' d)))"

text \<open>Lines 167-185: each enum field is clicked only when its value is a known one.\<close>

definition set_dot_type_v1 :: "world \<Rightarrow> options \<Rightarrow> handle \<Rightarrow> unit prog" where
  "set_dot_type_v1 w opts p =
     (let t = orDefault ''square'' (dotsType opts) in
      ifThen (t \<noteq> [] \<and> t \<in> set DOT_TYPES_v1) (selectRadioOption w p (JStr t)))"

definition set_corner_square_type_v1 :: "world \<Rightarrow> options \<Rightarrow> handle \<Rightarrow> unit prog" where
  "set_corner_square_type_v1 w opts p =
     (let t = orDefault ''square'' (cornersSquareType opts) in
      ifThen (t \<noteq> [] \<and> t \<in> set CORNER_SQUARE_TYPES_v1) (selectRadioOption w p (JStr t)))"

definition set_corner_dot_type_v1 :: "world \<Rightarrow> options \<Rightarrow> handle \<Rightarrow> unit prog" where
  "set_corner_dot_type_v1 w opts p =
     (let t = orDefault ''square'' (cornersDotType opts) in
      ifThen (t \<noteq> [] \<and> t \<in> set CORNER_DOT_TYPES_v1) (selectRadioOption w p (JStr t)))"

definition set_error_correction_level_v1 :: "world \<Rightarrow> options \<Rightarrow> handle \<Rightarrow> unit prog" where
  "set_error_correction_level_v1 w opts p =
     (let t = orDefault ''M'' (errorCorrectionLevel opts) in
      case (if t = [] then None else ERROR_CORRECTION_LEVELS_v1 t) of
        None \<Rightarrow> resolve ()
      | Some v \<Rightarrow> selectRadioOption w p v)"

text \<open>Lines 145-185.\<close>

definition fill_form_v1 :: "world \<Rightarrow> options \<Rightarrow> handle \<Rightarrow> unit prog" where
  "fill_form_v1 w opts p =
     seq [
       ifThen (truthy (logoUrl opts))
         (setTextInputByLabel w p ''Logo image URL'' (orDefault [] (logoUrl opts))),
       setColorInput w p ''Background color'' (orDefault ''#ffffff'' (backgroundColor opts)),
       setColorInput w p ''Dots color'' (orDefault ''#000000'' (dotsColor opts)),
       ifThen (truthy (cornersSquareColor opts))
         (setColorInput w p ''Corners Square color'' (orDefault [] (cornersSquareColor opts))),
       ifThen (truthy (cornersDotColor opts))
         (setColorInput w p ''Corners Dot color'' (orDefault [] (cornersDotColor opts))),
       setTextInputByLabel w p ''Width'' (String_num (orDefault (Num 300) (width opts))),
       setTextInputByLabel w p ''Height'' (String_num (orDefault (Num 300) (height opts))),
       setTextInputByLabel w p ''Border radius'' (String_num (orDefault (Num 0) (borderRadius opts))),
       setTextInputByLabel w p ''Margin'' (String_num (orDefault (Num 10) (margin opts))),
       setTextInputByLabel w p ''Image margin'' (String_num (orDefault (Num 0) (imageMargin opts))),
       set_dot_type_v1 w opts p,
       set_corner_square_type_v1 w opts p,
       set_corner_dot_type_v1 w opts p,
       set_error_correction_level_v1 w opts p
     ]"

text \<open>Lines 72-188: the page is opened and the form filled in.\<close>

definition prepare_v1 :: "world \<Rightarrow> options \<Rightarrow> string \<Rightarrow> handle \<Rightarrow> unit prog" where
  "prepare_v1 w opts d p =
     seq [
       act w (SetViewport p 1280 900),
       act w (Goto p MINI_QR_URL),
       act w (WaitForSelector p ''input.text-input''),
       type_data w p d,
       expand_accordion w p,
       fill_form_v1 w opts p,
       sleep 500
     ]"

text \<open>Lines 190-212: the result is taken from the page.\<close>

definition capture :: "world \<Rightarrow> handle \<Rightarrow> string \<Rightarrow> buffer prog" where
  "capture w p fmt =
     await (query w p ''#element-to-export'') (\<lambda>qrContainer.
       if \<not> qrContainer then throw (Error ''QR code element not found'')
       else if fmt = ''svg'' then
         await (ask w (EvalSvg p) (svg_markup w)) (\<lambda>svgContent.
           if \<not> truthy svgContent then throw (Error ''SVG element not found'')
           else resolve (Buffer_from (orDefault [] svgContent)))
       else
         ask w (Screenshot p (if fmt = ''png'' then ''png'' else ''jpeg''))
           (\<lambda>h. shot w h (if fmt = ''png'' then ''png'' else ''jpeg'')))"

text \<open>Lines 72-212: the body of the \<open>try\<close>.\<close>

definition session_v1 :: "world \<Rightarrow> options \<Rightarrow> string \<Rightarrow> handle \<Rightarrow> buffer prog" where
  "session_v1 w opts d p =
     await (prepare_v1 w opts d p) (\<lambda>_. capture w p (orDefault ''png'' (format opts)))"

definition generateQRCode_v1 :: "world \<Rightarrow> options \<Rightarrow> buffer prog" where
  "generateQRCode_v1 w opts =
     (case data opts of
        None \<Rightarrow> throw (Error ''Data to encode is required'')
      | Some d \<Rightarrow>
          if d = [] then throw (Error ''Data to encode is required'')
          else
            await (getBrowser w) (\<lambda>browserInstance.
            await (newPage w browserInstance) (\<lambda>page.
            try_finally (session_v1 w opts d page) (closePage w page))))"

subsection \<open>The \<open>/generate\<close> handlers (the same text in both files)\<close>

datatype payload = Raw buffer | Json_error string

record response =
  status :: nat
  content_type :: "string option"
  content_disposition :: "string option"
  body :: payload

text \<open>\<open>v || d\<close> on an optional string.\<close>

definition orElse :: "string option \<Rightarrow> string \<Rightarrow> string" where
  "orElse v d = (case v of None \<Rightarrow> d | Some s \<Rightarrow> if s = [] then d else s)"

definition contentType :: "string \<Rightarrow> string" where
  "contentType fmt = (if fmt = ''svg'' then ''image/svg+xml'' else ''image/'' @ fmt)"

text \<open>
  \<open>res.set(name, value)\<close> ends in \<open>setHeader\<close> of Node, which throws a \<open>TypeError\<close> for a
  value with a character that a header cannot hold: a control character other than the
  tab, or a code unit above 255.
\<close>

definition header_ok :: "string \<Rightarrow> bool" where
  "header_ok v = list_all (\<lambda>c. of_char c = (9::nat) \<or> (32 \<le> (of_char c :: nat) \<and> of_char c \<noteq> (127::nat))) v"

definition res_set :: "string \<Rightarrow> string \<Rightarrow> error option" where
  "res_set name v =
     (if header_ok v then None
      else Some (Error (''Invalid character in header content [\"'' @ name @ ''\"]'')))"

text \<open>\<open>res.status(500).json({ error: error.message })\<close>.\<close>

definition error_response :: "error \<Rightarrow> response" where
  "error_response e =
     \<lparr>status = 500, content_type = Some ''application/json; charset=utf-8'',
      content_disposition = None, body = Json_error (message e)\<rparr>"

text \<open>
  \<open>app.post('/generate')\<close>, for either \<open>generateQRCode\<close>. The two \<open>res.set\<close> are inside
  the \<open>try\<close>: when one throws, the \<open>catch\<close> answers. \<open>res.send\<close> of a buffer does not throw.
\<close>

definition post_generate ::
  "(world \<Rightarrow> options \<Rightarrow> buffer prog) \<Rightarrow> world \<Rightarrow> options \<Rightarrow> state \<Rightarrow> response \<times> state" where
  "post_generate gen w req_body s =
     (case gen w req_body s of
        (Inr imageBuffer, s1) \<Rightarrow>
          (let fmt = orElse (format req_body) ''png'';
               disposition = ''attachment; filename=\"qrcode.'' @ fmt @ ''\"''
           in case res_set ''Content-Type'' (contentType fmt) of
                Some e \<Rightarrow> (error_response e, s1)
              | None \<Rightarrow>
                  (case res_set ''Content-Disposition'' disposition of
                     Some e \<Rightarrow> (error_response e, s1)
                   | None \<Rightarrow>
                       (\<lparr>status = 200, content_type = Some (contentType fmt),
                         content_disposition = Some disposition,
                         body = Raw imageBuffer\<rparr>, s1)))
      | (Inl e, s1) \<Rightarrow> (error_response e, s1))"

text \<open>
  \<open>parseInt(str)\<close> with no radix: leading white space, a sign, \<open>0x\<close> for base 16, then
  the longest run of digits; no digit gives \<open>NaN\<close>, and the digits give the double nearest
  to the integer they denote.
\<close>

definition digit_of :: "nat \<Rightarrow> char \<Rightarrow> nat option" where
  "digit_of radix c =
     (let n = (of_char c :: nat);
          v = (if 48 \<le> n \<and> n \<le> 57 then Some (n - 48)
               else if 97 \<le> n \<and> n \<le> 122 then Some (n - 87)
               else if 65 \<le> n \<and> n \<le> 90 then Some (n - 55)
               else None)
      in case v of None \<Rightarrow> None | Some d \<Rightarrow> if d < radix then Some d else None)"

definition parseInt :: "string \<Rightarrow> jsnum" where
  "parseInt str =
     (let s0 = dropWhile is_space str;
          neg = (take 1 s0 = ''-'');
          s1 = (if take 1 s0 = ''-'' \<or> take 1 s0 = ''+'' then drop 1 s0 else s0);
          hex = (take 2 s1 = ''0x'' \<or> take 2 s1 = ''0X'');
          radix = (if hex then 16 else 10);
          s2 = (if hex then drop 2 s1 else s1);
          ds = List.map_filter (digit_of radix) (takeWhile (\<lambda>c. digit_of radix c \<noteq> None) s2)
      in if ds = [] then NaN
         else
           (case to_double (foldl (\<lambda>a d. a * radix + d) 0 ds) of
              None \<Rightarrow> if neg then MinusInfinity else Infinity
            | Some v \<Rightarrow> Num ((if neg then - 1 else 1) * int v)))"

text \<open>\<open>req.query.k ? parseInt(req.query.k) : undefined\<close>.\<close>

definition numeric :: "(string \<Rightarrow> string option) \<Rightarrow> string \<Rightarrow> jsnum option" where
  "numeric q k = (if truthy (q k) then Some (parseInt (orDefault [] (q k))) else None)"

definition query_options :: "(string \<Rightarrow> string option) \<Rightarrow> options" where
  "query_options q =
     \<lparr>data = q ''data'',
      logoUrl = q ''logoUrl'',
      backgroundColor = q ''backgroundColor'',
      dotsColor = q ''dotsColor'',
      cornersSquareColor = q ''cornersSquareColor'',
      cornersDotColor = q ''cornersDotColor'',
      width = numeric q ''width'',
      height = numeric q ''height'',
      borderRadius = numeric q ''borderRadius'',
      margin = numeric q ''margin'',
      imageMargin = numeric q ''imageMargin'',
      dotsType = q ''dotsType'',
      cornersSquareType = q ''cornersSquareType'',
      cornersDotType = q ''cornersDotType'',
      errorCorrectionLevel = q ''errorCorrectionLevel'',
      format = q ''format''\<rparr>"

text \<open>\<open>app.get('/generate')\<close>, for either \<open>generateQRCode\<close>.\<close>

definition get_generate ::
  "(world \<Rightarrow> options \<Rightarrow> buffer prog) \<Rightarrow> world \<Rightarrow> (string \<Rightarrow> string option) \<Rightarrow> state
     \<Rightarrow> response \<times> state" where
  "get_generate gen w q s =
     (case gen w (query_options q) s of
        (Inr imageBuffer, s1) \<Rightarrow>
          (let fmt = orElse (format (query_options q)) ''png''
           in case res_set ''Content-Type'' (contentType fmt) of
                Some e \<Rightarrow> (error_response e, s1)
              | None \<Rightarrow>
                  (\<lparr>status = 200, content_type = Some (contentType fmt),
                    content_disposition = None, body = Raw imageBuffer\<rparr>, s1))
      | (Inl e, s1) \<Rightarrow> (error_response e, s1))"


subsection \<open>Invariants and sample inputs\<close>

text \<open>A program that leaves the browser variable, the sessions, the open pages and the
  handle counter as they are.\<close>

definition frame :: "'a prog \<Rightarrow> bool" where
  "frame m = (\<forall>s. browser (snd (m s)) = browser s \<and> sessions (snd (m s)) = sessions s
                 \<and> pages (snd (m s)) = pages s \<and> next_id (snd (m s)) = next_id s)"

text \<open>A program whose only effect is to add calls to the log, each of them a \<open>Q\<close> call.\<close>

definition logs :: "(action \<Rightarrow> bool) \<Rightarrow> 'a prog \<Rightarrow> bool" where
  "logs Q m = (\<forall>s. \<exists>t. snd (m s) = s\<lparr>trace := trace s @ t\<rparr> \<and> list_all Q t)"

abbreviation log_only :: "'a prog \<Rightarrow> bool" where
  "log_only m \<equiv> logs (\<lambda>_. True) m"

text \<open>A click on an element whose selector starts with \<open>pre\<close>: for an id prefix such as
  \<open>#dotsOptionsType-\<close>, a click on one of the radio buttons of that field.\<close>

definition clicks_field :: "string \<Rightarrow> action \<Rightarrow> bool" where
  "clicks_field pre a = (case a of Click p sel \<Rightarrow> take (length pre) sel = pre | _ \<Rightarrow> False)"

text \<open>A program that, whenever it returns, has the call \<open>a\<close> in the log; and a program
  that only ever adds to the log.\<close>

definition emits :: "action \<Rightarrow> 'a prog \<Rightarrow> bool" where
  "emits a m = (\<forall>s x s'. m s = (Inr x, s') \<longrightarrow> a \<in> set (trace s'))"

definition grows :: "'a prog \<Rightarrow> bool" where
  "grows m = (\<forall>s. \<exists>t. trace (snd (m s)) = trace s @ t)"

text \<open>A world in which no call throws, and a program that returns, from every state, a value with
  the property \<open>P\<close>.\<close>

definition quiet :: "world \<Rightarrow> bool" where
  "quiet w = (\<forall>h a. fault w h a = None)"

definition returns :: "('a \<Rightarrow> bool) \<Rightarrow> 'a prog \<Rightarrow> bool" where
  "returns P m = (\<forall>s. \<exists>x. fst (m s) = Inr x \<and> P x)"

abbreviation succeeds :: "'a prog \<Rightarrow> bool" where
  "succeeds m \<equiv> returns (\<lambda>_. True) m"

text \<open>The live sessions are exactly the one the variable \<open>browser\<close> holds, if any.\<close>

definition one_session :: "state \<Rightarrow> bool" where
  "one_session s = (sessions s = (case browser s of None \<Rightarrow> [] | Some b \<Rightarrow> [b]))"

text \<open>Every open page was handed out before: the next handle is new.\<close>

definition fresh :: "state \<Rightarrow> bool" where
  "fresh s = list_all (\<lambda>q. q < next_id s) (pages s)"

text \<open>The options object \<open>{}\<close>.\<close>

definition no_options :: options where
  "no_options =
     \<lparr>data = None, logoUrl = None, backgroundColor = None, dotsColor = None,
      cornersSquareColor = None, cornersDotColor = None, width = None, height = None,
      borderRadius = None, margin = None, imageMargin = None, dotsType = None,
      cornersSquareType = None, cornersDotType = None, errorCorrectionLevel = None,
      format = None\<rparr>"

text \<open>
  A world in which nothing throws, every selector matches, the page has no labels and
  no accordion, the PNG export leaves one file, the directory is listed in the order in
  which its names were created, and the export container holds an \<open>svg\<close> element.
\<close>

definition base_world :: world where
  "base_world =
     \<lparr>fault = (\<lambda>_ _. None), found = (\<lambda>_ _. True),
      landed = (\<lambda>_. [(''qr-code.png'', [137, 80, 78, 71])]),
      dir_order = (\<lambda>_ _. 0),
      labels = (\<lambda>_. []), buttons = (\<lambda>_. 0), data_state = (\<lambda>_ _. ''open''),
      svg_markup = (\<lambda>_. Some ''<svg></svg>''), shot = (\<lambda>_ _. [255, 216, 255])\<rparr>"

definition hello :: options where
  "hello = no_options\<lparr>data := Some ''Hello World''\<rparr>"

text \<open>The same world with a browser that cannot be launched.\<close>

definition no_launch :: world where
  "no_launch =
     base_world\<lparr>fault := (\<lambda>_ a. if a = Launch then Some (Error ''Failed to launch the browser process'')
                                 else None)\<rparr>"

text \<open>The same world with a download that cannot be read back.\<close>

definition unreadable :: world where
  "unreadable =
     base_world\<lparr>fault := (\<lambda>_ a. if a = ReadFile ''/tmp/qr-downloads/qr-code.png''
                                 then Some (Error ''EIO: i/o error, read'') else None)\<rparr>"

text \<open>
  A directory that still holds a file of an earlier request, and the two orders in which
  the file system may list it with the new download.
\<close>

definition stale :: state where
  "stale = init\<lparr>files := [(''zzz.png'', [1, 2, 3])]\<rparr>"

definition fresh_first :: world where
  "fresh_first = base_world\<lparr>dir_order := (\<lambda>_ n. if n = ''qr-code.png'' then 0 else 1)\<rparr>"

definition stale_first :: world where
  "stale_first = base_world\<lparr>dir_order := (\<lambda>_ n. if n = ''zzz.png'' then 0 else 1)\<rparr>"

text \<open>The same world with no \<open>svg\<close> element in the export container, and with no export
  container.\<close>

definition no_svg :: world where
  "no_svg = base_world\<lparr>svg_markup := (\<lambda>_. None)\<rparr>"

definition no_container :: world where
  "no_container = base_world\<lparr>found := (\<lambda>_ sel. sel \<noteq> ''#element-to-export'')\<rparr>"

text \<open>The same world with a letter outside ASCII, \<open>U+00E9\<close>, in the markup.\<close>

definition accented :: world where
  "accented = base_world\<lparr>svg_markup := (\<lambda>_. Some (''<svg>'' @ [CHR 0xE9] @ ''</svg>''))\<rparr>"

text \<open>A page of the first generation with one labelled text input, for the width.\<close>

definition width_label :: label_elem where
  "width_label =
     \<lparr>textContent = ''Width'', flex = Some \<lparr>has_color_input = False, has_text_input = True\<rparr>,
      controls = None\<rparr>"

definition labelled :: world where
  "labelled = base_world\<lparr>labels := (\<lambda>_. [width_label])\<rparr>"

text \<open>The query string \<open>?data=Hello%20World&width=abc&height=0&margin=\<close>.\<close>

definition sample_query :: "string \<Rightarrow> string option" where
  "sample_query k =
     (if k = ''data'' then Some ''Hello World''
      else if k = ''width'' then Some ''abc''
      else if k = ''height'' then Some ''0''
      else if k = ''margin'' then Some []
      else None)"


section \<open>Properties\<close>

subsection \<open>Programs that only log\<close>

lemma logsI:
  "(\<And>s. \<exists>t. snd (m s) = s\<lparr>trace := trace s @ t\<rparr> \<and> list_all Q t) \<Longrightarrow> logs Q m"
  by (simp add: logs_def)

lemma logsD: "logs Q m \<Longrightarrow> \<exists>t. snd (m s) = s\<lparr>trace := trace s @ t\<rparr> \<and> list_all Q t"
  by (simp add: logs_def)

lemma logs_weaken: "logs Q m \<Longrightarrow> (\<And>a. Q a \<Longrightarrow> R a) \<Longrightarrow> logs R m"
  unfolding logs_def list_all_iff by meson

lemma logs_resolve [simp]: "logs Q (resolve x)"
  by (rule logsI, rule exI[of _ "[]"]) (simp add: resolve_def)

lemma logs_throw [simp]: "logs Q (throw e)"
  by (rule logsI, rule exI[of _ "[]"]) (simp add: throw_def)

lemma logs_pure [simp]: "logs Q (\<lambda>s. (g s, s))"
  by (rule logsI, rule exI[of _ "[]"]) simp

lemma logs_act [simp]: "Q a \<Longrightarrow> logs Q (act w a)"
  by (rule logsI, rule exI[of _ "[a]"]) (simp add: act_def split: option.split)

lemma logs_sleep [simp]: "Q (Sleep n) \<Longrightarrow> logs Q (sleep n)"
  by (rule logsI, rule exI[of _ "[Sleep n]"]) (simp add: sleep_def)

lemma logs_await:
  assumes "logs Q m" and "\<And>x. logs Q (f x)"
  shows "logs Q (await m f)"
proof (rule logsI)
  fix s
  obtain r s1 where m: "m s = (r, s1)" by (cases "m s")
  obtain t where t: "s1 = s\<lparr>trace := trace s @ t\<rparr>" "list_all Q t"
    using logsD[OF assms(1), of s] m by auto
  show "\<exists>t. snd (await m f s) = s\<lparr>trace := trace s @ t\<rparr> \<and> list_all Q t"
  proof (cases r)
    case (Inl e)
    then show ?thesis using m t by (auto simp: await_def)
  next
    case (Inr x)
    obtain u where u: "snd (f x s1) = s1\<lparr>trace := trace s1 @ u\<rparr>" "list_all Q u"
      using logsD[OF assms(2), of x s1] by auto
    have "snd (await m f s) = s\<lparr>trace := trace s @ (t @ u)\<rparr>"
      using m Inr u(1) t(1) by (simp add: await_def)
    then show ?thesis using t(2) u(2) by (metis list_all_append)
  qed
qed

lemma logs_ask [simp]: "Q a \<Longrightarrow> logs Q (ask w a g)"
  unfolding ask_def by (rule logs_await) simp_all

lemma logs_if: "logs Q a \<Longrightarrow> logs Q b \<Longrightarrow> logs Q (if c then a else b)"
  by simp

lemma logs_case_option:
  "logs Q a \<Longrightarrow> (\<And>x. logs Q (b x)) \<Longrightarrow> logs Q (case v of None \<Rightarrow> a | Some x \<Rightarrow> b x)"
  by (cases v) simp_all

lemma logs_ifThen: "logs Q m \<Longrightarrow> logs Q (ifThen c m)"
  by (simp add: ifThen_def)

lemma logs_seq: "list_all (logs Q) ms \<Longrightarrow> logs Q (seq ms)"
  by (induction ms) (auto intro: logs_await)

lemmas logs_intros = logs_await logs_if logs_case_option logs_ifThen logs_seq

lemma log_only_query [simp]: "log_only (query w p sel)"
  by (simp add: query_def)

lemma log_only_setInputById [simp]: "log_only (setInputById w p i v)"
  unfolding setInputById_def by (intro logs_intros) simp_all

lemma log_only_setColorById [simp]: "log_only (setColorById w p i v)"
  unfolding setColorById_def by (intro logs_intros) simp_all

lemma log_only_selectRadioById [simp]: "log_only (selectRadioById w p i)"
  unfolding selectRadioById_def by (intro logs_intros) simp_all

lemma log_only_enum_steps [simp]:
  "log_only (set_dot_type w opts p)" "log_only (set_corner_square_type w opts p)"
  "log_only (set_corner_dot_type w opts p)" "log_only (set_error_correction_level w opts p)"
  by (simp_all add: set_dot_type_def set_corner_square_type_def set_corner_dot_type_def
        set_error_correction_level_def Let_def logs_ifThen)

lemma log_only_fill_form [simp]: "log_only (fill_form w opts d p)"
  unfolding fill_form_def by (rule logs_seq) (simp add: logs_ifThen)

lemma log_only_prepare [simp]: "log_only (prepare w opts d p)"
  unfolding prepare_def by (rule logs_seq) simp

lemma log_only_type_data [simp]: "log_only (type_data w p d)"
  unfolding type_data_def by (intro logs_intros) simp_all

lemma log_only_expand_button [simp]: "log_only (expand_button w p i)"
  unfolding expand_button_def by (intro logs_intros) simp_all

lemma log_only_expand_accordion [simp]: "log_only (expand_accordion w p)"
  unfolding expand_accordion_def by (intro logs_intros) (simp_all add: list_all_iff)

lemma log_only_query_labels [simp]: "log_only (query_labels w p)"
  by (simp add: query_labels_def)

lemma log_only_setColorInput_loop [simp]: "log_only (setColorInput_loop w p l c ls)"
  by (induction ls) (auto intro!: logs_intros)

lemma log_only_setTextInputByLabel_loop [simp]: "log_only (setTextInputByLabel_loop w p l v ls)"
  by (induction ls) (auto intro!: logs_intros)

lemma log_only_selectRadioOption_loop [simp]: "log_only (selectRadioOption_loop w p v ls)"
  by (induction ls) (auto intro!: logs_intros)

lemma log_only_setColorInput [simp]: "log_only (setColorInput w p l c)"
  unfolding setColorInput_def by (intro logs_intros) simp_all

lemma log_only_setTextInputByLabel [simp]: "log_only (setTextInputByLabel w p l v)"
  unfolding setTextInputByLabel_def by (intro logs_intros) simp_all

lemma log_only_selectRadioOption [simp]: "log_only (selectRadioOption w p v)"
  unfolding selectRadioOption_def by (intro logs_intros) simp_all

lemma log_only_enum_steps_v1 [simp]:
  "log_only (set_dot_type_v1 w opts p)" "log_only (set_corner_square_type_v1 w opts p)"
  "log_only (set_corner_dot_type_v1 w opts p)" "log_only (set_error_correction_level_v1 w opts p)"
  by (simp_all add: set_dot_type_v1_def set_corner_square_type_v1_def set_corner_dot_type_v1_def
        set_error_correction_level_v1_def Let_def logs_ifThen split: option.split)

lemma log_only_fill_form_v1 [simp]: "log_only (fill_form_v1 w opts p)"
  unfolding fill_form_v1_def by (rule logs_seq) (simp add: logs_ifThen)

lemma log_only_prepare_v1 [simp]: "log_only (prepare_v1 w opts d p)"
  unfolding prepare_v1_def by (rule logs_seq) simp

lemma log_only_capture [simp]: "log_only (capture w p fmt)"
  unfolding capture_def by (intro logs_intros) simp_all

lemma log_only_session_v1 [simp]: "log_only (session_v1 w opts d p)"
  unfolding session_v1_def by (intro logs_intros) simp_all

subsection \<open>Programs that return when no call throws\<close>

lemma returnsI: "(\<And>s. \<exists>x. fst (m s) = Inr x \<and> P x) \<Longrightarrow> returns P m"
  by (simp add: returns_def)

lemma returnsD: "returns P m \<Longrightarrow> \<exists>x. fst (m s) = Inr x \<and> P x"
  by (simp add: returns_def)

lemma returns_resolve [simp]: "P x \<Longrightarrow> returns P (resolve x)"
  by (simp add: returns_def resolve_def)

lemma returns_pure [simp]: "(\<And>s. P (g s)) \<Longrightarrow> returns P (\<lambda>s. (Inr (g s), h s))"
  by (simp add: returns_def)

lemma returns_sleep [simp]: "succeeds (sleep n)"
  by (simp add: returns_def sleep_def)

lemma returns_act [simp]: "quiet w \<Longrightarrow> succeeds (act w a)"
  by (simp add: returns_def act_def quiet_def)

lemma returns_await:
  assumes "returns P m" and "\<And>x. P x \<Longrightarrow> returns R (f x)"
  shows "returns R (await m f)"
proof (rule returnsI)
  fix s
  obtain x where x: "fst (m s) = Inr x" "P x" using returnsD[OF assms(1)] by blast
  obtain r s1 where m: "m s = (r, s1)" by (cases "m s")
  have "await m f s = f x s1" using x(1) m by (simp add: await_def)
  then show "\<exists>y. fst (await m f s) = Inr y \<and> R y" using returnsD[OF assms(2)[OF x(2)]] by simp
qed

lemma returns_ask [simp]: "quiet w \<Longrightarrow> (\<And>h. P (g h)) \<Longrightarrow> returns P (ask w a g)"
  unfolding ask_def by (rule returns_await[where P="\<lambda>_. True"]) simp_all

lemma returns_ifThen: "succeeds m \<Longrightarrow> succeeds (ifThen c m)"
  by (simp add: ifThen_def)

lemma returns_seq: "list_all succeeds ms \<Longrightarrow> succeeds (seq ms)"
  by (induction ms) (auto intro: returns_await[where P="\<lambda>_. True"])

lemma succeeds_await: "succeeds m \<Longrightarrow> (\<And>x. succeeds (f x)) \<Longrightarrow> succeeds (await m f)"
  by (rule returns_await[where P="\<lambda>_. True"])

lemma succeeds_query [simp]: "quiet w \<Longrightarrow> succeeds (query w p sel)"
  by (simp add: query_def)

lemma succeeds_setInputById [simp]: "quiet w \<Longrightarrow> succeeds (setInputById w p i v)"
  unfolding setInputById_def by (intro succeeds_await returns_ifThen) simp_all

lemma succeeds_setColorById [simp]: "quiet w \<Longrightarrow> succeeds (setColorById w p i v)"
  unfolding setColorById_def by (intro succeeds_await returns_ifThen) simp_all

lemma succeeds_selectRadioById [simp]: "quiet w \<Longrightarrow> succeeds (selectRadioById w p i)"
  unfolding selectRadioById_def by (intro succeeds_await returns_ifThen) simp_all

lemma succeeds_enum_steps [simp]:
  assumes "quiet w"
  shows "succeeds (set_dot_type w opts p)" "succeeds (set_corner_square_type w opts p)"
    "succeeds (set_corner_dot_type w opts p)" "succeeds (set_error_correction_level w opts p)"
  using assms
  by (simp_all add: set_dot_type_def set_corner_square_type_def set_corner_dot_type_def
        set_error_correction_level_def Let_def returns_ifThen)

lemma succeeds_fill_form [simp]: "quiet w \<Longrightarrow> succeeds (fill_form w opts d p)"
  unfolding fill_form_def by (rule returns_seq) (simp add: returns_ifThen)

lemma succeeds_prepare [simp]: "quiet w \<Longrightarrow> succeeds (prepare w opts d p)"
  unfolding prepare_def by (rule returns_seq) simp

text \<open>Generation 1 needs the data input to be there, and every label to sit in a group.\<close>

lemma succeeds_type_data [simp]:
  assumes "quiet w" and "\<forall>h. found w h ''input.text-input''"
  shows "succeeds (type_data w p d)"
  unfolding type_data_def query_def
  by (rule returns_await[where P="\<lambda>x. x"]) (use assms in \<open>simp_all add: succeeds_await\<close>)

lemma succeeds_expand_button [simp]: "quiet w \<Longrightarrow> succeeds (expand_button w p i)"
  unfolding expand_button_def by (intro succeeds_await returns_ifThen) simp_all

lemma succeeds_expand_accordion [simp]: "quiet w \<Longrightarrow> succeeds (expand_accordion w p)"
  unfolding expand_accordion_def by (intro succeeds_await returns_seq) (simp_all add: list_all_iff)

lemma succeeds_in_group:
  assumes "quiet w" and "flex l \<noteq> None" and "\<And>g. succeeds (k g)"
  shows "succeeds (await (ask w a (\<lambda>_. flex l)) (\<lambda>parent.
           case parent of None \<Rightarrow> throw e | Some g \<Rightarrow> k g))"
  by (rule returns_await[where P="\<lambda>x. x \<noteq> None"]) (use assms in auto)

lemma succeeds_setColorInput_loop:
  "quiet w \<Longrightarrow> list_all (\<lambda>il. flex (snd il) \<noteq> None) ls \<Longrightarrow>
   succeeds (setColorInput_loop w p l c ls)"
proof (induction ls)
  case Nil
  then show ?case by simp
next
  case (Cons il ls)
  from Cons.prems have q: "quiet w" and fl: "flex (snd il) \<noteq> None"
    and rest: "list_all (\<lambda>il. flex (snd il) \<noteq> None) ls" by simp_all
  have tail: "succeeds (setColorInput_loop w p l c ls)" using Cons.IH[OF q rest] .
  have grp: "succeeds (await (ask w (Closest p (fst il)) (\<lambda>_. flex (snd il))) (\<lambda>parent.
           case parent of None \<Rightarrow> throw (Error ''parent.$ is not a function'')
           | Some g \<Rightarrow> await (ask w (QueryIn p (fst il) ''input.color-input'') (\<lambda>_. has_color_input g))
                 (\<lambda>colorInput. ifThen colorInput (act w (SetValueIn p (fst il) ''input.color-input'' c)))))"
    by (rule succeeds_in_group[OF q fl]) (intro succeeds_await returns_ifThen; simp add: q)
  show ?case unfolding setColorInput_loop.simps
    using q by (intro succeeds_await) (simp_all add: grp tail)
qed

lemma succeeds_setTextInputByLabel_loop:
  "quiet w \<Longrightarrow> list_all (\<lambda>il. flex (snd il) \<noteq> None) ls \<Longrightarrow>
   succeeds (setTextInputByLabel_loop w p l v ls)"
proof (induction ls)
  case Nil
  then show ?case by simp
next
  case (Cons il ls)
  from Cons.prems have q: "quiet w" and fl: "flex (snd il) \<noteq> None"
    and rest: "list_all (\<lambda>il. flex (snd il) \<noteq> None) ls" by simp_all
  have tail: "succeeds (setTextInputByLabel_loop w p l v ls)" using Cons.IH[OF q rest] .
  have grp: "succeeds (await (ask w (Closest p (fst il)) (\<lambda>_. flex (snd il))) (\<lambda>parent.
           case parent of None \<Rightarrow> throw (Error ''parent.$ is not a function'')
           | Some g \<Rightarrow> await (ask w (QueryIn p (fst il) ''input.text-input'') (\<lambda>_. has_text_input g))
                 (\<lambda>input. ifThen input
                      (await (act w (TripleClickIn p (fst il) ''input.text-input'')) (\<lambda>_.
                       act w (TypeTextIn p (fst il) ''input.text-input'' v))))))"
    by (rule succeeds_in_group[OF q fl]) (intro succeeds_await returns_ifThen; simp add: q)
  show ?case unfolding setTextInputByLabel_loop.simps
    using q by (intro succeeds_await) (simp_all add: grp tail)
qed

lemma succeeds_selectRadioOption_loop [simp]:
  "quiet w \<Longrightarrow> succeeds (selectRadioOption_loop w p v ls)"
  by (induction ls) (auto intro!: succeeds_await)

lemma succeeds_over_labels:
  assumes "quiet w" and "\<forall>h. list_all (\<lambda>l. flex l \<noteq> None) (labels w h)"
    and "\<And>ls. list_all (\<lambda>il. flex (snd il) \<noteq> None) ls \<Longrightarrow> succeeds (k ls)"
  shows "succeeds (await (query_labels w p) k)"
  unfolding query_labels_def
proof (rule returns_await[where P="list_all (\<lambda>il. flex (snd il) \<noteq> None)"])
  show "returns (list_all (\<lambda>il. flex (snd il) \<noteq> None))
          (ask w (QueryAll p ''label'') (\<lambda>h. enumerate 0 (labels w h)))"
    by (rule returns_ask) (use assms(1,2) in \<open>auto simp: list_all_length nth_enumerate_eq\<close>)
qed (rule assms(3))

lemma succeeds_setColorInput [simp]:
  "quiet w \<Longrightarrow> \<forall>h. list_all (\<lambda>l. flex l \<noteq> None) (labels w h) \<Longrightarrow>
   succeeds (setColorInput w p l c)"
  unfolding setColorInput_def by (rule succeeds_over_labels) (simp_all add: succeeds_setColorInput_loop)

lemma succeeds_setTextInputByLabel [simp]:
  "quiet w \<Longrightarrow> \<forall>h. list_all (\<lambda>l. flex l \<noteq> None) (labels w h) \<Longrightarrow>
   succeeds (setTextInputByLabel w p l v)"
  unfolding setTextInputByLabel_def
  by (rule succeeds_over_labels) (simp_all add: succeeds_setTextInputByLabel_loop)

lemma succeeds_selectRadioOption [simp]: "quiet w \<Longrightarrow> succeeds (selectRadioOption w p v)"
  unfolding selectRadioOption_def query_labels_def by (intro succeeds_await) simp_all

lemma succeeds_enum_steps_v1 [simp]:
  assumes "quiet w"
  shows "succeeds (set_dot_type_v1 w opts p)" "succeeds (set_corner_square_type_v1 w opts p)"
    "succeeds (set_corner_dot_type_v1 w opts p)" "succeeds (set_error_correction_level_v1 w opts p)"
  using assms
  by (simp_all add: set_dot_type_v1_def set_corner_square_type_v1_def set_corner_dot_type_v1_def
        set_error_correction_level_v1_def Let_def returns_ifThen split: option.split)

lemma succeeds_fill_form_v1 [simp]:
  "quiet w \<Longrightarrow> \<forall>h. list_all (\<lambda>l. flex l \<noteq> None) (labels w h) \<Longrightarrow>
   succeeds (fill_form_v1 w opts p)"
  unfolding fill_form_v1_def by (rule returns_seq) (simp add: returns_ifThen)

lemma succeeds_prepare_v1 [simp]:
  "quiet w \<Longrightarrow> \<forall>h. found w h ''input.text-input'' \<Longrightarrow>
   \<forall>h. list_all (\<lambda>l. flex l \<noteq> None) (labels w h) \<Longrightarrow>
   succeeds (prepare_v1 w opts d p)"
  unfolding prepare_v1_def by (rule returns_seq) simp

text \<open>A program that only logs and returns: its whole effect.\<close>

lemma runs:
  assumes "logs Q m" and "succeeds m"
  shows "\<exists>x t. m s = (Inr x, s\<lparr>trace := trace s @ t\<rparr>) \<and> list_all Q t"
proof -
  obtain t where t: "snd (m s) = s\<lparr>trace := trace s @ t\<rparr>" "list_all Q t"
    using logsD[OF assms(1)] by blast
  obtain x where "fst (m s) = Inr x" using returnsD[OF assms(2)] by blast
  then have "m s = (Inr x, s\<lparr>trace := trace s @ t\<rparr>)" using t(1) by (metis prod.collapse)
  then show ?thesis using t(2) by blast
qed

subsection \<open>What a request leaves untouched\<close>

lemma logs_frame: "logs Q m \<Longrightarrow> frame m"
  unfolding frame_def
proof
  fix s
  assume "logs Q m"
  then obtain t where "snd (m s) = s\<lparr>trace := trace s @ t\<rparr>" using logsD by blast
  then show "browser (snd (m s)) = browser s \<and> sessions (snd (m s)) = sessions s
           \<and> pages (snd (m s)) = pages s \<and> next_id (snd (m s)) = next_id s"
    by simp
qed

lemma frame_await:
  assumes "frame m" and "\<And>x. frame (f x)"
  shows "frame (await m f)"
proof -
  have "browser (snd (await m f s)) = browser s \<and> sessions (snd (await m f s)) = sessions s
      \<and> pages (snd (await m f s)) = pages s \<and> next_id (snd (await m f s)) = next_id s" for s
  proof (cases "m s")
    case (Pair r s1)
    have m: "browser s1 = browser s \<and> sessions s1 = sessions s \<and> pages s1 = pages s \<and> next_id s1 = next_id s"
      using assms(1) Pair unfolding frame_def by (metis snd_conv)
    show ?thesis
    proof (cases r)
      case (Inl e)
      then show ?thesis using Pair m by (simp add: await_def)
    next
      case (Inr x)
      have "await m f s = f x s1" using Pair Inr by (simp add: await_def)
      then show ?thesis using assms(2)[of x] m unfolding frame_def by simp
    qed
  qed
  then show ?thesis unfolding frame_def by blast
qed

lemma frame_act [simp]: "frame (act w a)"
  by (rule logs_frame[of "\<lambda>_. True"]) simp

lemma frame_sleep [simp]: "frame (sleep n)"
  by (rule logs_frame[of "\<lambda>_. True"]) simp

lemma frame_resolve [simp]: "frame (resolve x)"
  by (rule logs_frame[of "\<lambda>_. True"]) simp

lemma frame_throw [simp]: "frame (throw e)"
  by (rule logs_frame[of "\<lambda>_. True"]) simp

lemma frame_files [simp]: "frame (\<lambda>s. (r s, s\<lparr>files := g s\<rparr>))"
  by (simp add: frame_def)

lemma frame_same: "(\<And>s. snd (m s) = s) \<Longrightarrow> frame m"
  by (simp add: frame_def)

lemma frame_click_download [simp]: "frame (click_download w p fmt)"
  unfolding click_download_def by (intro frame_await) simp_all

lemma frame_readdir [simp]: "frame (readdir w dir)"
  unfolding readdir_def by (intro frame_await frame_act frame_same) simp

lemma frame_readFile [simp]: "frame (readFile w dir f)"
  unfolding readFile_def
  by (intro frame_await frame_act frame_same) (simp split: option.split)

lemma frame_unlink [simp]: "frame (unlink w dir f)"
  unfolding unlink_def by (intro frame_await) simp_all

lemma frame_read_download [simp]: "frame (read_download w fmt)"
proof -
  have "frame (case v of None \<Rightarrow> throw (Error ''Download failed - no file found'')
        | Some f \<Rightarrow> await (readFile w downloadPath f) (\<lambda>b.
             await (unlink w downloadPath f) (\<lambda>_. resolve b)))" for v
  proof (cases v)
    case None
    then show ?thesis by simp
  next
    case (Some f)
    then show ?thesis by (auto intro!: frame_await)
  qed
  then show ?thesis unfolding read_download_def by (intro frame_await) simp_all
qed




lemma getBrowser_cached: "browser s = Some b \<Longrightarrow> getBrowser w s = (Inr b, s)"
  by (simp add: getBrowser_def)

lemma getBrowser_launch:
  "browser s = None \<Longrightarrow> fault w (trace s) Launch = None \<Longrightarrow>
   getBrowser w s =
     (Inr (next_id s),
      s\<lparr>trace := trace s @ [Launch], browser := Some (next_id s),
        sessions := sessions s @ [next_id s], next_id := Suc (next_id s)\<rparr>)"
  by (simp add: getBrowser_def act_def)

lemma getBrowser_fails:
  "browser s = None \<Longrightarrow> fault w (trace s) Launch = Some e \<Longrightarrow>
   getBrowser w s = (Inl e, s\<lparr>trace := trace s @ [Launch]\<rparr>)"
  by (simp add: getBrowser_def act_def)

lemma getBrowser_inv:
  assumes "getBrowser w s = (r, s')"
  shows "pages s' = pages s" and "fresh s \<Longrightarrow> fresh s'" and "one_session s \<Longrightarrow> one_session s'"
    and "next_id s \<le> next_id s'" and "\<And>b. r = Inr b \<Longrightarrow> browser s' = Some b"
    and "\<And>b. browser s = Some b \<Longrightarrow> browser s' = Some b"
  using assms
  by (auto simp: getBrowser_def act_def fresh_def one_session_def list_all_iff less_Suc_eq
           split: option.splits)


lemma closePage_state:
  "snd (closePage w p s) = s\<lparr>trace := trace s @ [ClosePage p], pages := filter (\<lambda>q. q \<noteq> p) (pages s)\<rparr>"
  by (simp add: closePage_def act_def split: option.split)







lemma gen_reaches_page:
  assumes "data opts = Some d" "d \<noteq> []" "getBrowser w s = (Inr b, s1)" "newPage w b s1 = (Inr p, s2)"
  shows "generateQRCode w opts s = try_finally (session w opts d p) (closePage w p) s2"
    and "generateQRCode_v1 w opts s = try_finally (session_v1 w opts d p) (closePage w p) s2"
  using assms by (simp_all add: generateQRCode_def generateQRCode_v1_def await_def)


subsection \<open>Numbers\<close>

lemma bits_bounds: "n \<noteq> 0 \<Longrightarrow> 2 ^ (bits n - 1) \<le> n \<and> n < 2 ^ bits n"
proof (induction n rule: bits.induct)
  case (1 n)
  show ?case
  proof (cases "n div 2 = 0")
    case True
    then have "n = 1" using 1(2) by (simp add: div_eq_0_iff) 
    then show ?thesis by (simp add: bits.simps)
  next
    case False
    then have ih: "2 ^ (bits (n div 2) - 1) \<le> n div 2 \<and> n div 2 < 2 ^ bits (n div 2)"
      using 1 by simp
    have b: "bits n = Suc (bits (n div 2))" using 1(2) by (subst bits.simps) simp
    have p: "bits (n div 2) \<noteq> 0" using False by (subst bits.simps) simp
    then obtain k where k: "bits (n div 2) = Suc k" by (cases "bits (n div 2)") auto
    show ?thesis using ih unfolding b k by auto
  qed
qed

lemma bits_le: "n < 2 ^ k \<Longrightarrow> bits n \<le> k"
proof (cases "n = 0")
  case True
  then show ?thesis by (simp add: bits.simps)
next
  case False
  assume "n < 2 ^ k"
  then have "(2::nat) ^ (bits n - 1) < 2 ^ k" using bits_bounds[OF False] by linarith
  then have "bits n - 1 < k" by simp
  then show ?thesis by linarith
qed

lemma to_double_small: "n < 2 ^ 53 \<Longrightarrow> to_double n = Some n"
proof -
  assume a: "n < 2 ^ 53"
  then have "bits n - 53 = 0" using bits_le[of n 53] by simp
  moreover have "n < 2 ^ 1024" using a by (rule less_trans) simp
  ultimately show ?thesis by (simp add: to_double_def Let_def)
qed

lemma to_double_large:
  assumes "2 ^ 53 \<le> n" and "to_double n = Some y"
  shows "2 ^ 53 \<le> y"
proof -
  have n0: "n \<noteq> 0" using assms(1) by auto
  define e where "e = bits n - 53"
  define q where "q = n div 2 ^ e"
  have bn: "53 < bits n"
  proof (rule ccontr)
    assume "\<not> 53 < bits n"
    then have "bits n \<le> 53" by simp
    then have "(2::nat) ^ bits n \<le> 2 ^ 53" by (rule power_increasing) simp
    then show False using bits_bounds[OF n0] assms(1) by linarith
  qed
  then have be: "bits n - 1 = 52 + e" by (simp add: e_def)
  have "2 ^ 52 * 2 ^ e \<le> n" using bits_bounds[OF n0] unfolding be by (simp add: power_add)
  then have q52: "2 ^ 52 \<le> q" unfolding q_def by (simp add: less_eq_div_iff_mult_less_eq)
  have e1: "1 \<le> e" using bn by (simp add: e_def)
  define c where "c = (2 * (n mod 2 ^ e) < 2 ^ e \<or> (2 * (n mod 2 ^ e) = 2 ^ e \<and> even q))"
  have "to_double n = (if (if c then q else q + 1) * 2 ^ e < 2 ^ 1024
                       then Some ((if c then q else q + 1) * 2 ^ e) else None)"
    by (simp only: to_double_def Let_def e_def q_def c_def)
  then have "y = (if c then q else q + 1) * 2 ^ e"
    using assms(2) by (metis option.distinct(1) option.inject)
  then have "q * 2 ^ e \<le> y" by (cases c) simp_all
  moreover have "(2::nat) ^ 1 \<le> 2 ^ e" using e1 by (intro power_increasing) simp_all
  then have "2 ^ 52 * 2 ^ 1 \<le> q * 2 ^ e" by (rule mult_le_mono[OF q52])
  ultimately show ?thesis by simp
qed

lemma to_double_inj_small:
  assumes "to_double v = Some x" and "x < 2 ^ 53"
  shows "v = x"
proof (cases "v < 2 ^ 53")
  case True
  then show ?thesis using assms(1) by (simp add: to_double_small)
next
  case False
  then have "2 ^ 53 \<le> x" using to_double_large[OF _ assms(1)] by simp
  then show ?thesis using assms(2) by simp
qed

lemma round_trips_small:
  assumes "x < 2 ^ 53" and "v \<in> set (round_trips x k)"
  shows "v = x"
  using assms(2) to_double_inj_small[OF _ assms(1)]
  by (auto simp: round_trips_def Let_def split: if_splits)

lemma shortest_small:
  assumes "x < 2 ^ 53"
  shows "shortest x = x"
proof (cases "List.find (\<lambda>k. round_trips x k \<noteq> []) [1..<Suc (digits10 x)]")
  case None
  then show ?thesis by (simp add: shortest_def)
next
  case (Some k)
  note rt = round_trips_small[OF assms, of _ k]
  show ?thesis
  proof (cases "round_trips x k")
    case Nil
    then show ?thesis using Some by (simp add: shortest_def)
  next
    case (Cons a as)
    then have a: "a = x" using rt by simp
    show ?thesis
    proof (cases as)
      case Nil
      then show ?thesis using Some Cons a by (simp add: shortest_def)
    next
      case (Cons b bs)
      then have b: "b = x" using rt \<open>round_trips x k = a # as\<close> by simp
      show ?thesis
        using Some \<open>round_trips x k = a # as\<close> Cons a b
        by (cases bs) (simp_all add: shortest_def)
    qed
  qed
qed

lemma String_double_small: "x < 2 ^ 53 \<Longrightarrow> String_double x = show_nat x"
proof -
  assume a: "x < 2 ^ 53"
  then have "x < 10 ^ 21" by (rule less_trans) simp
  then show ?thesis using a by (simp add: String_double_def shortest_small)
qed

lemma String_num_small:
  "i < 2 ^ 53 \<Longrightarrow> String_num (Num (int i)) = show_nat i"
  "0 < i \<Longrightarrow> i < 2 ^ 53 \<Longrightarrow> String_num (Num (- int i)) = CHR ''-'' # show_nat i"
  by (simp_all add: to_double_small String_double_small)


subsection \<open>\<open>parseInt\<close>\<close>

lemma digit_char_code: "d < 10 \<Longrightarrow> (of_char (digit_char d) :: nat) = 48 + d"
proof -
  assume "d < 10"
  then have "d = 0 \<or> d = 1 \<or> d = 2 \<or> d = 3 \<or> d = 4 \<or> d = 5 \<or> d = 6 \<or> d = 7 \<or> d = 8 \<or> d = 9"
    by arith
  then show ?thesis by (elim disjE) (simp_all add: digit_char_def)
qed

lemma digit_of_digit_char: "d < 10 \<Longrightarrow> digit_of 10 (digit_char d) = Some d"
  by (simp add: digit_of_def Let_def digit_char_code)

lemma digit_char_plain:
  assumes "d < 10"
  shows "\<not> is_space (digit_char d)" and "digit_char d \<noteq> CHR ''-''" and "digit_char d \<noteq> CHR ''+''"
    and "digit_char d \<noteq> CHR ''x''" and "digit_char d \<noteq> CHR ''X''"
proof -
  have c: "(of_char (digit_char d) :: nat) = 48 + d" using assms by (rule digit_char_code)
  have n: "of_char (digit_char d) \<noteq> (k::nat)" if "k < 48 \<or> 57 < k" for k
    using that assms unfolding c by auto
  have ne: "digit_char d \<noteq> ch" if "(of_char ch :: nat) < 48 \<or> 57 < (of_char ch :: nat)" for ch
    using n[OF that] by auto
  show "\<not> is_space (digit_char d)"
    unfolding is_space_def using ne by (auto simp del: of_char_eq_iff)
  show "digit_char d \<noteq> CHR ''-''" "digit_char d \<noteq> CHR ''+''"
    "digit_char d \<noteq> CHR ''x''" "digit_char d \<noteq> CHR ''X''"
    by (rule ne, simp)+
qed

lemma show_nat_digits: "c \<in> set (show_nat n) \<Longrightarrow> \<exists>d<10. c = digit_char d"
proof (induction n rule: show_nat.induct)
  case (1 n)
  show ?case
  proof (cases "n < 10")
    case True
    then show ?thesis using 1(2) by (subst (asm) show_nat.simps) auto
  next
    case False
    then have "c \<in> set (show_nat (n div 10)) \<or> c = digit_char (n mod 10)"
      using 1(2) by (subst (asm) show_nat.simps) auto
    then show ?thesis using 1(1)[OF False] by (metis mod_less_divisor zero_less_numeral)
  qed
qed

lemma show_nat_not_Nil: "show_nat n \<noteq> []"
  by (subst show_nat.simps) simp

lemma show_nat_all_digits:
  "takeWhile (\<lambda>c. digit_of 10 c \<noteq> None) (show_nat n) = show_nat n"
  "takeWhile (\<lambda>c. \<exists>y. digit_of 10 c = Some y) (show_nat n) = show_nat n"
  using show_nat_digits digit_of_digit_char by (fastforce simp: takeWhile_eq_all_conv)+

lemma show_nat_value:
  "foldl (\<lambda>a d. a * 10 + d) 0 (List.map_filter (digit_of 10) (show_nat n)) = n"
proof (induction n rule: show_nat.induct)
  case (1 n)
  show ?case
  proof (cases "n < 10")
    case True
    then show ?thesis
      by (subst show_nat.simps) (simp add: List.map_filter_def digit_of_digit_char)
  next
    case False
    have "foldl (\<lambda>a d. a * 10 + d) 0 (List.map_filter (digit_of 10) (show_nat n))
        = foldl (\<lambda>a d. a * 10 + d) 0
            (List.map_filter (digit_of 10) (show_nat (n div 10)) @ [n mod 10])"
      using False
      by (subst show_nat.simps) (simp add: List.map_filter_def digit_of_digit_char)
    also have "\<dots> = (n div 10) * 10 + n mod 10" using 1[OF False] by simp
    finally show ?thesis by simp
  qed
qed

lemma parseInt_show_nat:
  "parseInt (show_nat n) = (case to_double n of None \<Rightarrow> Infinity | Some v \<Rightarrow> Num (int v))"
proof -
  obtain c cs where s: "show_nat n = c # cs" using show_nat_not_Nil by (cases "show_nat n") auto
  obtain d where d: "d < 10" "c = digit_char d" using show_nat_digits[of c n] s by auto
  have s0: "dropWhile is_space (show_nat n) = show_nat n"
    using digit_char_plain(1)[OF d(1)] s d(2) by simp
  have sg: "take 1 (show_nat n) \<noteq> ''-''" "take 1 (show_nat n) \<noteq> ''+''"
    using digit_char_plain(2,3)[OF d(1)] s d(2) by simp_all
  have "ch \<notin> set (show_nat n)" if "\<And>d. d < 10 \<Longrightarrow> digit_char d \<noteq> ch" for ch
    using show_nat_digits[of ch n] that by blast
  then have "CHR ''x'' \<notin> set (show_nat n)" "CHR ''X'' \<notin> set (show_nat n)"
    using digit_char_plain(4,5) by blast+
  then have "CHR ''x'' \<notin> set (take 2 (show_nat n))" "CHR ''X'' \<notin> set (take 2 (show_nat n))"
    by (meson in_set_takeD)+
  then have hx: "take 2 (show_nat n) \<noteq> ''0x''" "take 2 (show_nat n) \<noteq> ''0X''"
    by (metis list.set_intros(1,2))+
  have ne: "List.map_filter (digit_of 10) (show_nat n) \<noteq> []"
    using s d digit_of_digit_char by (simp add: List.map_filter_def)
  show ?thesis
    unfolding parseInt_def Let_def s0
    using sg hx ne by (simp add: show_nat_all_digits show_nat_value split: option.split)
qed

lemma parseInt_show_nat_small: "n < 2 ^ 53 \<Longrightarrow> parseInt (show_nat n) = Num (int n)"
  by (simp add: parseInt_show_nat to_double_small)

lemma digit_of_zero: "digit_of 10 (CHR ''0'') = Some 0"
  by (simp add: digit_of_def)

lemma zero_no_space: "\<not> is_space (CHR ''0'')"
  by (simp add: is_space_def)

lemma parseInt_zero: "parseInt ''0'' = Num 0"
  unfolding parseInt_def Let_def
  by (simp add: zero_no_space digit_of_zero List.map_filter_def to_double_small)

lemma parseInt_no_digit:
  assumes "\<forall>c\<in>set v. digit_of 10 c = None"
  shows "parseInt v = NaN"
proof -
  define s0 where "s0 = dropWhile is_space v"
  define s1 where "s1 = (if take 1 s0 = ''-'' \<or> take 1 s0 = ''+'' then drop 1 s0 else s0)"
  have sub0: "set s0 \<subseteq> set v"
    unfolding s0_def by (meson set_dropWhileD subsetI)
  have "set s1 \<subseteq> set s0"
    unfolding s1_def by (simp add: set_drop_subset)
  then have sub: "set s1 \<subseteq> set v" using sub0 by blast
  have nd: "digit_of 10 c = None" if "c \<in> set s1" for c using that sub assms by blast
  have nohex: "take 2 s1 \<noteq> ''0x''" "take 2 s1 \<noteq> ''0X''"
  proof -
    have "CHR ''0'' \<notin> set s1" using nd[of "CHR ''0''"] digit_of_zero by auto
    then have "CHR ''0'' \<notin> set (take 2 s1)" by (meson in_set_takeD)
    then show "take 2 s1 \<noteq> ''0x''" "take 2 s1 \<noteq> ''0X''" by (metis list.set_intros(1))+
  qed
  have tw: "takeWhile (\<lambda>c. digit_of 10 c \<noteq> None) s1 = []"
  proof (cases s1)
    case Nil
    then show ?thesis by simp
  next
    case (Cons c cs)
    then have "digit_of 10 c = None" using nd[of c] by simp
    then show ?thesis using Cons by simp
  qed
  have "parseInt v =
     (let hex = (take 2 s1 = ''0x'' \<or> take 2 s1 = ''0X'');
          radix = (if hex then 16 else 10);
          s2 = (if hex then drop 2 s1 else s1);
          ds = List.map_filter (digit_of radix) (takeWhile (\<lambda>c. digit_of radix c \<noteq> None) s2)
      in if ds = [] then NaN
         else
           (case to_double (foldl (\<lambda>a d. a * radix + d) 0 ds) of
              None \<Rightarrow> if take 1 s0 = ''-'' then MinusInfinity else Infinity
            | Some v \<Rightarrow> Num ((if take 1 s0 = ''-'' then - 1 else 1) * int v)))"
    unfolding parseInt_def s0_def s1_def Let_def ..
  also have "\<dots> = NaN"
    unfolding Let_def using nohex tw by (simp add: List.map_filter_def)
  finally show ?thesis .
qed

lemma parseInt_prefix_example: "parseInt ''12px'' = Num 12"
  by (simp add: parseInt_def is_space_def digit_of_def List.map_filter_def to_double_small)

subsection \<open>A whole request in a quiet world\<close>

lemma act_quiet: "quiet w \<Longrightarrow> act w a s = (Inr (), s\<lparr>trace := trace s @ [a]\<rparr>)"
  by (simp add: act_def quiet_def)

lemma closePage_quiet:
  "quiet w \<Longrightarrow>
   closePage w p s
     = (Inr (), s\<lparr>trace := trace s @ [ClosePage p], pages := filter (\<lambda>q. q \<noteq> p) (pages s)\<rparr>)"
  by (simp add: closePage_def act_quiet)

lemma click_download_quiet:
  "quiet w \<Longrightarrow>
   click_download w p fmt s
     = (Inr (), s\<lparr>trace := trace s @ [Click p (''#'' @ buttonId fmt), Sleep 2000],
                  files := write_files (landed w (trace s @ [Click p (''#'' @ buttonId fmt), Sleep 2000]))
                             (files s)\<rparr>)"
  by (simp add: click_download_def await_def act_quiet sleep_def)

lemma read_download_none:
  assumes "quiet w"
    and "find (\<lambda>f. endsWith f (''.'' @ ext fmt))
           (sort_key (dir_order w (trace s @ [Readdir downloadPath])) (map fst (files s))) = None"
  shows "read_download w fmt s
     = (Inl (Error ''Download failed - no file found''), s\<lparr>trace := trace s @ [Readdir downloadPath]\<rparr>)"
  using assms by (simp add: read_download_def readdir_def await_def act_quiet throw_def)

lemma read_download_some:
  assumes "quiet w"
    and "find (\<lambda>f. endsWith f (''.'' @ ext fmt))
           (sort_key (dir_order w (trace s @ [Readdir downloadPath])) (map fst (files s))) = Some f"
  shows "\<exists>b. map_of (files s) f = Some b \<and>
     read_download w fmt s
       = (Inr b, s\<lparr>trace := trace s @ [Readdir downloadPath, ReadFile (downloadPath @ ''/'' @ f),
                                        Unlink (downloadPath @ ''/'' @ f)],
                   files := AList.delete f (files s)\<rparr>)"
proof -
  have "f \<in> set (sort_key (dir_order w (trace s @ [Readdir downloadPath])) (map fst (files s)))"
    using assms(2) unfolding find_Some_iff by (metis nth_mem)
  then have "f \<in> set (map fst (files s))" by simp
  then obtain b where b: "map_of (files s) f = Some b"
    by (cases "map_of (files s) f") (auto simp: map_of_eq_None_iff)
  show ?thesis
    using assms b
    by (simp add: read_download_def readdir_def readFile_def unlink_def await_def act_quiet resolve_def)
qed

lemma getBrowser_quiet:
  assumes "quiet w"
  shows "\<exists>b s1. getBrowser w s = (Inr b, s1) \<and> files s1 = files s"
proof (cases "browser s")
  case None
  then show ?thesis using assms getBrowser_launch[of s w] by (simp add: quiet_def)
next
  case (Some b)
  then show ?thesis by (simp add: getBrowser_cached)
qed

lemma newPage_quiet:
  "quiet w \<Longrightarrow> \<exists>s2. newPage w b s = (Inr (next_id s), s2) \<and> files s2 = files s"
  by (simp add: newPage_def act_quiet)

lemma try_finally_quiet:
  assumes "quiet w" and "m s = (r, s1)"
  shows "try_finally m (closePage w p) s
     = (r, s1\<lparr>trace := trace s1 @ [ClosePage p], pages := filter (\<lambda>q. q \<noteq> p) (pages s1)\<rparr>)"
  using assms by (simp add: try_finally_def closePage_quiet)

lemma reaches_session:
  assumes "quiet w" and "data opts = Some d" and "d \<noteq> []"
  shows "\<exists>p s2. files s2 = files s
     \<and> generateQRCode w opts s = try_finally (session w opts d p) (closePage w p) s2
     \<and> generateQRCode_v1 w opts s = try_finally (session_v1 w opts d p) (closePage w p) s2"
proof -
  obtain b s1 where g: "getBrowser w s = (Inr b, s1)" "files s1 = files s"
    using getBrowser_quiet[OF assms(1)] by blast
  obtain s2 where n: "newPage w b s1 = (Inr (next_id s1), s2)" "files s2 = files s1"
    using newPage_quiet[OF assms(1)] by blast
  show ?thesis
    using gen_reaches_page[OF assms(2,3) g(1) n(1)] g(2) n(2) by auto
qed

text \<open>The outcome of a request to \<open>src/api/server.js\<close>, from the directory \<open>D\<close> as it is after
  the download and its listing \<open>names\<close>.\<close>

definition download_outcome ::
  "world \<Rightarrow> options \<Rightarrow> state \<Rightarrow> handle \<Rightarrow> action list \<Rightarrow> bool" where
  "download_outcome w opts s p h =
     (let fmt = orDefault ''png'' (format opts);
          h1 = h @ [Click p (''#'' @ buttonId fmt), Sleep 2000];
          D = write_files (landed w h1) (files s);
          names = sort_key (dir_order w (h1 @ [Readdir downloadPath])) (map fst D);
          r = generateQRCode w opts s
      in case find (\<lambda>f. endsWith f (''.'' @ ext fmt)) names of
           None \<Rightarrow>
             fst r = Inl (Error ''Download failed - no file found'')
             \<and> files (snd r) = D
             \<and> trace (snd r) = h1 @ [Readdir downloadPath, ClosePage p]
         | Some f \<Rightarrow>
             map_of D f \<noteq> None
             \<and> fst r = Inr (the (map_of D f))
             \<and> files (snd r) = AList.delete f D
             \<and> trace (snd r) = h1 @ [Readdir downloadPath,
                  ReadFile (downloadPath @ ''/'' @ f),
                  Unlink (downloadPath @ ''/'' @ f), ClosePage p])"

lemma gen2_run:
  assumes "quiet w" and "data opts = Some d" and "d \<noteq> []"
  shows "\<exists>p h. download_outcome w opts s p h"
proof -
  define fmt where "fmt = orDefault ''png'' (format opts)"
  obtain p s2 where r: "files s2 = files s"
      "generateQRCode w opts s = try_finally (session w opts d p) (closePage w p) s2"
    using reaches_session[OF assms] by blast
  obtain x t where pr: "prepare w opts d p s2 = (Inr x, s2\<lparr>trace := trace s2 @ t\<rparr>)"
    using runs[OF log_only_prepare succeeds_prepare[OF assms(1)]] by blast
  define s3 where "s3 = s2\<lparr>trace := trace s2 @ t\<rparr>"
  define h1 where "h1 = trace s3 @ [Click p (''#'' @ buttonId fmt), Sleep 2000]"
  define D where "D = write_files (landed w h1) (files s)"
  define s4 where "s4 = s3\<lparr>trace := h1, files := D\<rparr>"
  define names where "names = sort_key (dir_order w (h1 @ [Readdir downloadPath])) (map fst D)"
  have cd: "click_download w p fmt s3 = (Inr (), s4)"
    using click_download_quiet[OF assms(1)] by (simp add: s4_def h1_def D_def s3_def r(1))
  have se: "session w opts d p s2 = read_download w fmt s4"
    using pr cd by (simp add: session_def await_def s3_def fmt_def)
  have F: "files s4 = D" by (simp add: s4_def)
  have T: "trace s4 = h1" by (simp add: s4_def)
  have N: "sort_key (dir_order w (trace s4 @ [Readdir downloadPath])) (map fst (files s4)) = names"
    by (simp add: names_def F T)
  have main: "case find (\<lambda>f. endsWith f (''.'' @ ext fmt)) names of
                None \<Rightarrow>
                  fst (generateQRCode w opts s) = Inl (Error ''Download failed - no file found'')
                  \<and> files (snd (generateQRCode w opts s)) = D
                  \<and> trace (snd (generateQRCode w opts s)) = h1 @ [Readdir downloadPath, ClosePage p]
              | Some f \<Rightarrow>
                  map_of D f \<noteq> None
                  \<and> fst (generateQRCode w opts s) = Inr (the (map_of D f))
                  \<and> files (snd (generateQRCode w opts s)) = AList.delete f D
                  \<and> trace (snd (generateQRCode w opts s)) = h1 @ [Readdir downloadPath,
                       ReadFile (downloadPath @ ''/'' @ f),
                       Unlink (downloadPath @ ''/'' @ f), ClosePage p]"
  proof (cases "find (\<lambda>f. endsWith f (''.'' @ ext fmt)) names")
    case None
    then have n: "find (\<lambda>f. endsWith f (''.'' @ ext fmt))
        (sort_key (dir_order w (trace s4 @ [Readdir downloadPath])) (map fst (files s4))) = None"
      unfolding N .
    have "generateQRCode w opts s
        = (Inl (Error ''Download failed - no file found''),
           s4\<lparr>trace := trace s4 @ [Readdir downloadPath],
              trace := (trace s4 @ [Readdir downloadPath]) @ [ClosePage p],
              pages := filter (\<lambda>q. q \<noteq> p) (pages s4)\<rparr>)"
      unfolding r(2)
      using try_finally_quiet[OF assms(1), of "session w opts d p" s2 _ _ p]
        se read_download_none[OF assms(1) n] by simp
    then show ?thesis using None F T by simp
  next
    case (Some f)
    then have n: "find (\<lambda>f. endsWith f (''.'' @ ext fmt))
        (sort_key (dir_order w (trace s4 @ [Readdir downloadPath])) (map fst (files s4))) = Some f"
      unfolding N .
    obtain b where b: "map_of (files s4) f = Some b"
      "read_download w fmt s4
         = (Inr b, s4\<lparr>trace := trace s4 @ [Readdir downloadPath, ReadFile (downloadPath @ ''/'' @ f),
                                        Unlink (downloadPath @ ''/'' @ f)],
                   files := AList.delete f (files s4)\<rparr>)"
      using read_download_some[OF assms(1) n] by blast
    have "generateQRCode w opts s
        = (Inr b,
           s4\<lparr>trace := trace s4 @ [Readdir downloadPath, ReadFile (downloadPath @ ''/'' @ f),
                                        Unlink (downloadPath @ ''/'' @ f)],
              files := AList.delete f (files s4),
              trace := (trace s4 @ [Readdir downloadPath, ReadFile (downloadPath @ ''/'' @ f),
                                        Unlink (downloadPath @ ''/'' @ f)]) @ [ClosePage p],
              pages := filter (\<lambda>q. q \<noteq> p) (pages s4)\<rparr>)"
      unfolding r(2)
      using try_finally_quiet[OF assms(1), of "session w opts d p" s2 _ _ p] se b(2) by simp
    then show ?thesis using Some F T b(1) by simp
  qed
  have "download_outcome w opts s p (trace s3)"
    unfolding download_outcome_def Let_def fmt_def[symmetric] h1_def[symmetric] D_def[symmetric]
      names_def[symmetric]
    by (rule main)
  then show ?thesis by blast
qed

lemma capture_quiet:
  assumes "quiet w"
  shows "capture w p fmt s =
     (let hq = trace s @ [Query p ''#element-to-export''] in
      if \<not> found w hq ''#element-to-export''
      then (Inl (Error ''QR code element not found''), s\<lparr>trace := hq\<rparr>)
      else if fmt = ''svg''
      then (if truthy (svg_markup w (hq @ [EvalSvg p]))
            then Inr (Buffer_from (orDefault [] (svg_markup w (hq @ [EvalSvg p]))))
            else Inl (Error ''SVG element not found''),
            s\<lparr>trace := hq @ [EvalSvg p]\<rparr>)
      else (Inr (shot w (hq @ [Screenshot p (if fmt = ''png'' then ''png'' else ''jpeg'')])
                   (if fmt = ''png'' then ''png'' else ''jpeg'')),
            s\<lparr>trace := hq @ [Screenshot p (if fmt = ''png'' then ''png'' else ''jpeg'')]\<rparr>))"
  using assms
  by (simp add: capture_def query_def ask_def await_def act_quiet throw_def resolve_def Let_def)

lemma gen1_run:
  assumes "quiet w" and "data opts = Some d" and "d \<noteq> []"
    and "\<forall>h. found w h ''input.text-input''"
    and "\<forall>h. list_all (\<lambda>l. flex l \<noteq> None) (labels w h)"
  shows "\<exists>p s3. fst (generateQRCode_v1 w opts s) = fst (capture w p (orDefault ''png'' (format opts)) s3)
     \<and> trace (snd (generateQRCode_v1 w opts s))
         = trace (snd (capture w p (orDefault ''png'' (format opts)) s3)) @ [ClosePage p]"
proof -
  obtain p s2 where r:
      "generateQRCode_v1 w opts s = try_finally (session_v1 w opts d p) (closePage w p) s2"
    using reaches_session[OF assms(1-3)] by blast
  obtain x t where pr: "prepare_v1 w opts d p s2 = (Inr x, s2\<lparr>trace := trace s2 @ t\<rparr>)"
    using runs[OF log_only_prepare_v1 succeeds_prepare_v1[OF assms(1,4,5)]] by blast
  define s3 where "s3 = s2\<lparr>trace := trace s2 @ t\<rparr>"
  define c where "c = capture w p (orDefault ''png'' (format opts)) s3"
  have se: "session_v1 w opts d p s2 = (fst c, snd c)"
    using pr by (simp add: session_v1_def await_def s3_def c_def)
  have "generateQRCode_v1 w opts s
     = (fst c, (snd c)\<lparr>trace := trace (snd c) @ [ClosePage p],
                       pages := filter (\<lambda>q. q \<noteq> p) (pages (snd c))\<rparr>)"
    unfolding r
    using try_finally_quiet[where m="session_v1 w opts d p" and s=s2 and p=p, OF assms(1) se] .
  then show ?thesis unfolding c_def by (intro exI[of _ p] exI[of _ s3]) simp
qed

lemma quiet_base_world [simp]: "quiet base_world"
  by (simp add: quiet_def base_world_def)

lemma find_as_filter:
  "find P (map fst F) = (case filter (\<lambda>e. P (fst e)) F of [] \<Rightarrow> None | e # _ \<Rightarrow> Some (fst e))"
  by (induction F) auto

lemma map_of_first_match:
  "filter (\<lambda>e. P (fst e)) F = e # es \<Longrightarrow> map_of F (fst e) = Some (snd e)"
proof (induction F)
  case Nil
  then show ?case by simp
next
  case (Cons x xs)
  show ?case
  proof (cases "P (fst x)")
    case True
    then show ?thesis using Cons.prems by auto
  next
    case False
    then have f: "filter (\<lambda>e. P (fst e)) xs = e # es" using Cons.prems by simp
    then have "e \<in> set (filter (\<lambda>e. P (fst e)) xs)" by simp
    then have "P (fst e)" by simp
    then have "fst x \<noteq> fst e" using False by auto
    then show ?thesis using Cons.IH[OF f] by (cases x) auto
  qed
qed

subsection \<open>Clicks on the radio buttons of a field\<close>

lemma logs_setInputById:
  "Q (Query p (''#'' @ i)) \<Longrightarrow> Q (SetValue p (''#'' @ i) v) \<Longrightarrow> logs Q (setInputById w p i v)"
  unfolding setInputById_def query_def by (intro logs_intros) simp_all

lemma logs_setColorById:
  "Q (Query p (''#'' @ i)) \<Longrightarrow> Q (SetValue p (''#'' @ i) v) \<Longrightarrow> logs Q (setColorById w p i v)"
  unfolding setColorById_def query_def by (intro logs_intros) simp_all

lemma logs_selectRadioById:
  "Q (Query p (''#'' @ i)) \<Longrightarrow> Q (Click p (''#'' @ i)) \<Longrightarrow> logs Q (selectRadioById w p i)"
  unfolding selectRadioById_def query_def by (intro logs_intros) simp_all

lemma no_click_simps [simp]:
  "\<not> clicks_field pre (Query p sel)" "\<not> clicks_field pre (SetValue p sel v)"
  "\<not> clicks_field pre (SetViewport p x y)" "\<not> clicks_field pre (Goto p u)"
  "\<not> clicks_field pre (WaitForSelector p sel)" "\<not> clicks_field pre (Sleep n)"
  "\<not> clicks_field pre (Mkdir dir)" "\<not> clicks_field pre (CreateCDPSession p)"
  "\<not> clicks_field pre (SetDownloadBehavior p dir)"
  by (simp_all add: clicks_field_def)

lemma enum_step_skipped:
  "dotsType opts = Some v \<Longrightarrow> v \<notin> set DOT_TYPES \<Longrightarrow> set_dot_type w opts p = resolve ()"
  "cornersSquareType opts = Some v \<Longrightarrow> v \<notin> set CORNER_SQUARE_TYPES \<Longrightarrow>
     set_corner_square_type w opts p = resolve ()"
  "cornersDotType opts = Some v \<Longrightarrow> v \<notin> set CORNER_DOT_TYPES \<Longrightarrow>
     set_corner_dot_type w opts p = resolve ()"
  "errorCorrectionLevel opts = Some v \<Longrightarrow> v \<notin> set ERROR_CORRECTION_LEVELS \<Longrightarrow>
     set_error_correction_level w opts p = resolve ()"
  by (simp_all add: set_dot_type_def set_corner_square_type_def set_corner_dot_type_def
        set_error_correction_level_def orDefault_def ifThen_def)

lemma ifThen_False [simp]: "ifThen False m = resolve ()"
  by (simp add: ifThen_def)

lemmas fill_form_steps = logs_ifThen logs_setInputById logs_setColorById logs_selectRadioById
  set_dot_type_def set_corner_square_type_def set_corner_dot_type_def
  set_error_correction_level_def Let_def clicks_field_def

lemma fill_form_no_click:
  "dotsType opts = Some v \<Longrightarrow> v \<notin> set DOT_TYPES \<Longrightarrow>
     logs (\<lambda>a. \<not> clicks_field ''#dotsOptionsType-'' a) (fill_form w opts d p)"
  "cornersSquareType opts = Some v \<Longrightarrow> v \<notin> set CORNER_SQUARE_TYPES \<Longrightarrow>
     logs (\<lambda>a. \<not> clicks_field ''#cornersSquareOptionsType-'' a) (fill_form w opts d p)"
  "cornersDotType opts = Some v \<Longrightarrow> v \<notin> set CORNER_DOT_TYPES \<Longrightarrow>
     logs (\<lambda>a. \<not> clicks_field ''#cornersDotOptionsType-'' a) (fill_form w opts d p)"
  "errorCorrectionLevel opts = Some v \<Longrightarrow> v \<notin> set ERROR_CORRECTION_LEVELS \<Longrightarrow>
     logs (\<lambda>a. \<not> clicks_field ''#errorCorrectionLevel-'' a) (fill_form w opts d p)"
  unfolding fill_form_def
  by (rule logs_seq, simp add: fill_form_steps orDefault_def)+

lemma prepare_no_click:
  assumes "logs (\<lambda>a. \<not> clicks_field pre a) (fill_form w opts d p)"
  shows "logs (\<lambda>a. \<not> clicks_field pre a) (prepare w opts d p)"
  unfolding prepare_def by (rule logs_seq) (simp add: assms)

lemma enum_step_skipped_v1:
  "dotsType opts = Some v \<Longrightarrow> v \<notin> set DOT_TYPES_v1 \<Longrightarrow> set_dot_type_v1 w opts p = resolve ()"
  "cornersSquareType opts = Some v \<Longrightarrow> v \<notin> set CORNER_SQUARE_TYPES_v1 \<Longrightarrow>
     set_corner_square_type_v1 w opts p = resolve ()"
  "cornersDotType opts = Some v \<Longrightarrow> v \<notin> set CORNER_DOT_TYPES_v1 \<Longrightarrow>
     set_corner_dot_type_v1 w opts p = resolve ()"
  by (simp_all add: set_dot_type_v1_def set_corner_square_type_v1_def set_corner_dot_type_v1_def
        orDefault_def)

lemma selectRadioOption_loop_object:
  "logs (\<lambda>a. \<forall>i. a \<noteq> ClickLabel p i) (selectRadioOption_loop w p JObj ls)"
  by (induction ls) (auto intro!: logs_await)

lemma selectRadioOption_object:
  "logs (\<lambda>a. \<forall>i. a \<noteq> ClickLabel p i) (selectRadioOption w p JObj)"
  unfolding selectRadioOption_def query_labels_def
  by (intro logs_await selectRadioOption_loop_object) simp

lemma error_correction_level_v1_unknown:
  assumes "errorCorrectionLevel opts = Some v" and "v \<notin> {''L'', ''M'', ''Q'', ''H''}"
  shows "logs (\<lambda>a. \<forall>i. a \<noteq> ClickLabel p i) (set_error_correction_level_v1 w opts p)"
    and "v \<notin> set Object_prototype_keys \<Longrightarrow> set_error_correction_level_v1 w opts p = resolve ()"
  using assms
  by (auto simp: set_error_correction_level_v1_def ERROR_CORRECTION_LEVELS_v1_def orDefault_def
        selectRadioOption_object)

lemma write_files_names: "fst ` set (write_files new dir) = fst ` set new \<union> fst ` set dir"
  unfolding write_files_def
  by (induction new arbitrary: dir) (auto simp: dom_update)

lemma gen2_succeeds:
  assumes "quiet w" and "data opts = Some d" and "d \<noteq> []"
    and "\<forall>h. \<exists>e\<in>set (landed w h). endsWith (fst e) (''.'' @ ext (orDefault ''png'' (format opts)))"
  shows "\<exists>b. fst (generateQRCode w opts s) = Inr b"
proof -
  obtain p h where G: "download_outcome w opts s p h"
    using gen2_run[OF assms(1-3), of s] by (elim exE)
  define fmt where "fmt = orDefault ''png'' (format opts)"
  define h1 where "h1 = h @ [Click p (''#'' @ buttonId fmt), Sleep 2000]"
  define D where "D = write_files (landed w h1) (files s)"
  define names where "names = sort_key (dir_order w (h1 @ [Readdir downloadPath])) (map fst D)"
  obtain e where e: "e \<in> set (landed w h1)" "endsWith (fst e) (''.'' @ ext fmt)"
    using assms(4) unfolding fmt_def by blast
  then have "fst e \<in> fst ` set D" by (auto simp: D_def write_files_names)
  then have "fst e \<in> set names" by (simp add: names_def)
  then have "find (\<lambda>f. endsWith f (''.'' @ ext fmt)) names \<noteq> None"
    using e(2) unfolding find_None_iff by blast
  then obtain f where f: "find (\<lambda>f. endsWith f (''.'' @ ext fmt)) names = Some f" by blast
  show ?thesis
    using G
    unfolding download_outcome_def Let_def fmt_def[symmetric] h1_def[symmetric] D_def[symmetric]
      names_def[symmetric] f
    by simp
qed

lemma gen1_succeeds:
  assumes "quiet w" and "data opts = Some d" and "d \<noteq> []"
    and "\<forall>h. found w h ''input.text-input''"
    and "\<forall>h. list_all (\<lambda>l. flex l \<noteq> None) (labels w h)"
    and "\<forall>h. found w h ''#element-to-export''"
    and "\<forall>h. truthy (svg_markup w h)"
  shows "\<exists>b. fst (generateQRCode_v1 w opts s) = Inr b"
proof -
  obtain p s3 where r:
    "fst (generateQRCode_v1 w opts s) = fst (capture w p (orDefault ''png'' (format opts)) s3)"
    using gen1_run[OF assms(1-5), of s] by blast
  show ?thesis unfolding r capture_quiet[OF assms(1)] using assms(6,7) by (simp add: Let_def)
qed

subsection \<open>Calls a successful request has made\<close>

lemma growsI: "(\<And>s. \<exists>t. trace (snd (m s)) = trace s @ t) \<Longrightarrow> grows m"
  by (simp add: grows_def)

lemma growsD: "grows m \<Longrightarrow> m s = (r, s') \<Longrightarrow> \<exists>t. trace s' = trace s @ t"
  unfolding grows_def by (metis snd_conv)

lemma logs_grows: "logs Q m \<Longrightarrow> grows m"
proof (rule growsI)
  fix s
  assume "logs Q m"
  then obtain t where "snd (m s) = s\<lparr>trace := trace s @ t\<rparr>" using logsD by blast
  then show "\<exists>t. trace (snd (m s)) = trace s @ t" by simp
qed

lemma grows_keep [simp]: "grows (\<lambda>s. (r s, s\<lparr>files := g s\<rparr>))" "grows (\<lambda>s. (r s, s))"
  by (simp_all add: grows_def)

lemma grows_act [simp]: "grows (act w a)"
  by (rule logs_grows[of "\<lambda>_. True"]) simp

lemma grows_await:
  assumes "grows m" and "\<And>x. grows (f x)"
  shows "grows (await m f)"
proof (rule growsI)
  fix s
  obtain r s1 where m: "m s = (r, s1)" by (cases "m s")
  obtain t where t: "trace s1 = trace s @ t" using growsD[OF assms(1) m] by blast
  show "\<exists>t. trace (snd (await m f s)) = trace s @ t"
  proof (cases r)
    case (Inl e)
    then show ?thesis using m t by (simp add: await_def)
  next
    case (Inr x)
    obtain r2 s2 where f: "f x s1 = (r2, s2)" by (cases "f x s1")
    obtain u where "trace s2 = trace s1 @ u" using growsD[OF assms(2) f] by blast
    then have "trace (snd (await m f s)) = trace s @ (t @ u)"
      using m Inr f t by (simp add: await_def)
    then show ?thesis by blast
  qed
qed

lemma grows_seq: "list_all grows ms \<Longrightarrow> grows (seq ms)"
  by (induction ms) (auto intro: grows_await logs_grows[of "\<lambda>_. True"])

lemma grows_click_download [simp]: "grows (click_download w p fmt)"
  unfolding click_download_def
  by (intro grows_await) (simp_all add: logs_grows[of "\<lambda>_. True"])

lemma grows_read_download [simp]: "grows (read_download w fmt)"
proof -
  have k: "grows (\<lambda>s. case map_of (files s) f of
              None \<Rightarrow> (Inl (Error ''ENOENT: no such file or directory''), s)
            | Some b \<Rightarrow> (Inr b, s))" for f
    by (rule growsI) (simp split: option.split)
  have "grows (case v of None \<Rightarrow> throw (Error ''Download failed - no file found'')
        | Some f \<Rightarrow> await (readFile w downloadPath f) (\<lambda>b.
             await (unlink w downloadPath f) (\<lambda>_. resolve b)))" for v
  proof (cases v)
    case None
    then show ?thesis by (simp add: logs_grows[of "\<lambda>_. True"])
  next
    case (Some f)
    then show ?thesis
      unfolding readFile_def unlink_def
      by (auto intro!: grows_await k simp: logs_grows[of "\<lambda>_. True"])
  qed
  then show ?thesis
    unfolding read_download_def readdir_def by (intro grows_await) simp_all
qed

lemma emitsI: "(\<And>s x s'. m s = (Inr x, s') \<Longrightarrow> a \<in> set (trace s')) \<Longrightarrow> emits a m"
  by (simp add: emits_def)

lemma emitsD: "emits a m \<Longrightarrow> m s = (Inr x, s') \<Longrightarrow> a \<in> set (trace s')"
  unfolding emits_def by blast

lemma await_Inr:
  assumes "await m f s = (Inr y, s')"
  obtains x s1 where "m s = (Inr x, s1)" and "f x s1 = (Inr y, s')"
  using assms by (auto simp: await_def split: prod.splits sum.splits)

lemma emits_await_l:
  assumes "emits a m" and "\<And>x. grows (f x)"
  shows "emits a (await m f)"
proof (rule emitsI)
  fix s y s'
  assume "await m f s = (Inr y, s')"
  then obtain x s1 where m: "m s = (Inr x, s1)" and f: "f x s1 = (Inr y, s')"
    by (rule await_Inr)
  obtain t where "trace s' = trace s1 @ t" using growsD[OF assms(2) f] by blast
  then show "a \<in> set (trace s')" using emitsD[OF assms(1) m] by simp
qed

lemma emits_await_r:
  assumes "\<And>x. emits a (f x)"
  shows "emits a (await m f)"
proof (rule emitsI)
  fix s y s'
  assume "await m f s = (Inr y, s')"
  then obtain x s1 where "f x s1 = (Inr y, s')" by (rule await_Inr)
  then show "a \<in> set (trace s')" using emitsD[OF assms] by blast
qed

lemma emits_seq_nth:
  "i < length ms \<Longrightarrow> emits a (ms ! i) \<Longrightarrow> list_all grows ms \<Longrightarrow> emits a (seq ms)"
proof (induction ms arbitrary: i)
  case Nil
  then show ?case by simp
next
  case (Cons m ms)
  show ?case
  proof (cases i)
    case 0
    then show ?thesis using Cons.prems by (auto intro!: emits_await_l grows_seq)
  next
    case (Suc j)
    then show ?thesis using Cons.prems Cons.IH[of j] by (auto intro!: emits_await_r)
  qed
qed

lemma emits_setInputById:
  assumes "\<forall>h. found w h (''#'' @ i)"
  shows "emits (SetValue p (''#'' @ i) v) (setInputById w p i v)"
proof (rule emitsI)
  fix s x s'
  assume "setInputById w p i v s = (Inr x, s')"
  then show "SetValue p (''#'' @ i) v \<in> set (trace s')"
    using assms
    by (auto simp: setInputById_def query_def ask_def await_def act_def ifThen_def
             split: option.splits)
qed

lemma grows_fill_form_steps:
  "grows (setInputById w p i v)" "grows (setColorById w p i v)"
  "grows (set_dot_type w opts p)" "grows (set_corner_square_type w opts p)"
  "grows (set_corner_dot_type w opts p)" "grows (set_error_correction_level w opts p)"
  "grows m \<Longrightarrow> grows (ifThen c m)" "grows (fill_form w opts d p)" "grows (sleep n)"
  by (simp_all add: logs_grows[of "\<lambda>_. True"] ifThen_def)

lemma emits_width:
  assumes "\<forall>h. found w h ''#width''"
  shows "emits (SetValue p ''#width'' (String_num (orDefault (Num 300) (width opts))))
           (fill_form w opts d p)"
  unfolding fill_form_def
  by (rule emits_seq_nth[of 6])
     (use emits_setInputById[of w "''width''" p] assms in \<open>simp_all add: grows_fill_form_steps\<close>)

lemma emits_height:
  assumes "\<forall>h. found w h ''#height''"
  shows "emits (SetValue p ''#height'' (String_num (orDefault (Num 300) (height opts))))
           (fill_form w opts d p)"
  unfolding fill_form_def
  by (rule emits_seq_nth[of 7])
     (use emits_setInputById[of w "''height''" p] assms in \<open>simp_all add: grows_fill_form_steps\<close>)

lemma emits_borderRadius:
  assumes "\<forall>h. found w h ''#border-radius''"
  shows "emits (SetValue p ''#border-radius'' (String_num (orDefault (Num 0) (borderRadius opts))))
           (fill_form w opts d p)"
  unfolding fill_form_def
  by (rule emits_seq_nth[of 8])
     (use emits_setInputById[of w "''border-radius''" p] assms in
        \<open>simp_all add: grows_fill_form_steps\<close>)

lemma emits_margin:
  assumes "\<forall>h. found w h ''#margin''"
  shows "emits (SetValue p ''#margin'' (String_num (orDefault (Num 10) (margin opts))))
           (fill_form w opts d p)"
  unfolding fill_form_def
  by (rule emits_seq_nth[of 9])
     (use emits_setInputById[of w "''margin''" p] assms in \<open>simp_all add: grows_fill_form_steps\<close>)

lemma emits_imageMargin:
  assumes "\<forall>h. found w h ''#image-margin''"
  shows "emits (SetValue p ''#image-margin'' (String_num (orDefault (Num 0) (imageMargin opts))))
           (fill_form w opts d p)"
  unfolding fill_form_def
  by (rule emits_seq_nth[of 10])
     (use emits_setInputById[of w "''image-margin''" p] assms in
        \<open>simp_all add: grows_fill_form_steps\<close>)

lemma scoped_emits:
  assumes "try_finally m (closePage w p) s = (Inr b, s')" and "emits a m"
  shows "a \<in> set (trace s')"
proof -
  obtain r s1 where m: "m s = (r, s1)" by (cases "m s")
  have c: "snd (closePage w p s1) = s'" "r = Inr b"
    using assms(1) m by (auto simp: try_finally_def split: prod.splits sum.splits)
  have "a \<in> set (trace s1)" using emitsD[OF assms(2)] m c(2) by blast
  then show ?thesis using c(1) closePage_state[of w p s1] by auto
qed

lemma reached_session:
  assumes "generateQRCode w opts s = (Inr b, s')"
  obtains d p s2 where "data opts = Some d"
    and "try_finally (session w opts d p) (closePage w p) s2 = (Inr b, s')"
proof -
  obtain d where d: "data opts = Some d" "d \<noteq> []"
    using assms by (cases "data opts") (auto simp: generateQRCode_def throw_def split: if_splits)
  have "await (getBrowser w) (\<lambda>bi. await (newPage w bi)
          (\<lambda>p. try_finally (session w opts d p) (closePage w p))) s = (Inr b, s')"
    using assms d by (simp add: generateQRCode_def)
  then obtain bi s1 where "await (newPage w bi)
          (\<lambda>p. try_finally (session w opts d p) (closePage w p)) s1 = (Inr b, s')"
    by (rule await_Inr)
  then obtain p s2 where "try_finally (session w opts d p) (closePage w p) s2 = (Inr b, s')"
    by (rule await_Inr)
  then show ?thesis using that d(1) by blast
qed

lemma reached_session_v1:
  assumes "generateQRCode_v1 w opts s = (Inr b, s')"
  obtains d p s2 where "data opts = Some d"
    and "try_finally (session_v1 w opts d p) (closePage w p) s2 = (Inr b, s')"
proof -
  obtain d where d: "data opts = Some d" "d \<noteq> []"
    using assms by (cases "data opts") (auto simp: generateQRCode_v1_def throw_def split: if_splits)
  have "await (getBrowser w) (\<lambda>bi. await (newPage w bi)
          (\<lambda>p. try_finally (session_v1 w opts d p) (closePage w p))) s = (Inr b, s')"
    using assms d by (simp add: generateQRCode_v1_def)
  then obtain bi s1 where "await (newPage w bi)
          (\<lambda>p. try_finally (session_v1 w opts d p) (closePage w p)) s1 = (Inr b, s')"
    by (rule await_Inr)
  then obtain p s2 where "try_finally (session_v1 w opts d p) (closePage w p) s2 = (Inr b, s')"
    by (rule await_Inr)
  then show ?thesis using that d(1) by blast
qed

lemma emits_session:
  assumes "emits a (fill_form w opts d p)"
  shows "emits a (session w opts d p)"
proof -
  have "emits a (prepare w opts d p)"
    unfolding prepare_def
    by (rule emits_seq_nth[of 3]) (use assms in \<open>simp_all add: grows_fill_form_steps\<close>)
  then show ?thesis
    unfolding session_def by (rule emits_await_l) (intro grows_await, simp_all)
qed

lemma gen2_emits:
  assumes "generateQRCode w opts s = (Inr b, s')"
    and "\<And>d p. emits (A p) (fill_form w opts d p)"
  shows "\<exists>p. A p \<in> set (trace s')"
proof -
  obtain d p s2 where "try_finally (session w opts d p) (closePage w p) s2 = (Inr b, s')"
    using assms(1) by (rule reached_session)
  then have "A p \<in> set (trace s')" using emits_session[OF assms(2)] by (rule scoped_emits)
  then show ?thesis by blast
qed

subsection \<open>Numeric fields in the form\<close>

lemma ask_Inr: "ask w a g s = (Inr x, s') \<Longrightarrow> \<exists>h. x = g h"
  by (auto simp: ask_def await_def act_def split: option.splits)

lemma emits_setTextInputByLabel_loop:
  assumes "find (\<lambda>il. str_includes (textContent (snd il)) lbl) ls = Some (i, l)"
    and "flex l = Some g" and "has_text_input g"
  shows "emits (TypeTextIn p i ''input.text-input'' v) (setTextInputByLabel_loop w p lbl v ls)"
  using assms(1)
proof (induction ls)
  case Nil
  then show ?case by simp
next
  case (Cons il ls)
  show ?case
  proof (cases "str_includes (textContent (snd il)) lbl")
    case True
    then have il: "il = (i, l)" using Cons.prems by simp
    show ?thesis
    proof (rule emitsI)
      fix s x s'
      assume "setTextInputByLabel_loop w p lbl v (il # ls) s = (Inr x, s')"
      then show "TypeTextIn p i ''input.text-input'' v \<in> set (trace s')"
        using True il assms(2,3)
        by (auto simp: ask_def await_def act_def ifThen_def split: option.splits)
    qed
  next
    case False
    then have "find (\<lambda>il. str_includes (textContent (snd il)) lbl) ls = Some (i, l)"
      using Cons.prems by simp
    then have ih: "emits (TypeTextIn p i ''input.text-input'' v) (setTextInputByLabel_loop w p lbl v ls)"
      by (rule Cons.IH)
    show ?thesis
    proof (rule emitsI)
      fix s x s'
      assume "setTextInputByLabel_loop w p lbl v (il # ls) s = (Inr x, s')"
      then obtain s1 where "setTextInputByLabel_loop w p lbl v ls s1 = (Inr x, s')"
        using False by (auto simp: ask_def await_def act_def split: option.splits)
      then show "TypeTextIn p i ''input.text-input'' v \<in> set (trace s')"
        using emitsD[OF ih] by blast
    qed
  qed
qed

lemma emits_setTextInputByLabel:
  assumes "\<forall>h. labels w h = L"
    and "find (\<lambda>il. str_includes (textContent (snd il)) lbl) (enumerate 0 L) = Some (i, l)"
    and "flex l = Some g" and "has_text_input g"
  shows "emits (TypeTextIn p i ''input.text-input'' v) (setTextInputByLabel w p lbl v)"
proof (rule emitsI)
  fix s x s'
  assume "setTextInputByLabel w p lbl v s = (Inr x, s')"
  then obtain ls s1 where q: "query_labels w p s = (Inr ls, s1)"
    and l: "setTextInputByLabel_loop w p lbl v ls s1 = (Inr x, s')"
    unfolding setTextInputByLabel_def by (rule await_Inr)
  have "ls = enumerate 0 L" using ask_Inr[OF q[unfolded query_labels_def]] assms(1) by auto
  then show "TypeTextIn p i ''input.text-input'' v \<in> set (trace s')"
    using emitsD[OF emits_setTextInputByLabel_loop[OF _ assms(3,4)] l] assms(2) by simp
qed

lemma grows_fill_form_v1_steps:
  "grows (setTextInputByLabel w p l v)" "grows (setColorInput w p l c)"
  "grows (set_dot_type_v1 w opts p)" "grows (set_corner_square_type_v1 w opts p)"
  "grows (set_corner_dot_type_v1 w opts p)" "grows (set_error_correction_level_v1 w opts p)"
  "grows (fill_form_v1 w opts p)" "grows (type_data w p d)" "grows (expand_accordion w p)"
  "grows (capture w p fmt)"
  by (simp_all add: logs_grows[of "\<lambda>_. True"])

lemma emits_session_v1:
  assumes "emits a (fill_form_v1 w opts p)"
  shows "emits a (session_v1 w opts d p)"
proof -
  have "emits a (prepare_v1 w opts d p)"
    unfolding prepare_v1_def
    by (rule emits_seq_nth[of 5])
       (use assms in \<open>simp_all add: grows_fill_form_steps grows_fill_form_v1_steps\<close>)
  then show ?thesis
    unfolding session_v1_def by (rule emits_await_l) (simp add: grows_fill_form_v1_steps)
qed

lemma gen1_emits:
  assumes "generateQRCode_v1 w opts s = (Inr b, s')"
    and "\<And>p. emits (A p) (fill_form_v1 w opts p)"
  shows "\<exists>p. A p \<in> set (trace s')"
proof -
  obtain d p s2 where "try_finally (session_v1 w opts d p) (closePage w p) s2 = (Inr b, s')"
    using assms(1) by (rule reached_session_v1)
  then have "A p \<in> set (trace s')" using emits_session_v1[OF assms(2)] by (rule scoped_emits)
  then show ?thesis by blast
qed

lemma emits_dimensions_v1:
  "emits a (setTextInputByLabel w p ''Width'' (String_num (orDefault (Num 300) (width opts))))
     \<Longrightarrow> emits a (fill_form_v1 w opts p)"
  "emits a (setTextInputByLabel w p ''Height'' (String_num (orDefault (Num 300) (height opts))))
     \<Longrightarrow> emits a (fill_form_v1 w opts p)"
  "emits a (setTextInputByLabel w p ''Border radius'' (String_num (orDefault (Num 0) (borderRadius opts))))
     \<Longrightarrow> emits a (fill_form_v1 w opts p)"
  "emits a (setTextInputByLabel w p ''Margin'' (String_num (orDefault (Num 10) (margin opts))))
     \<Longrightarrow> emits a (fill_form_v1 w opts p)"
  "emits a (setTextInputByLabel w p ''Image margin'' (String_num (orDefault (Num 0) (imageMargin opts))))
     \<Longrightarrow> emits a (fill_form_v1 w opts p)"
  unfolding fill_form_v1_def
      apply -
  subgoal by (rule emits_seq_nth[of 5]) (simp_all add: grows_fill_form_steps grows_fill_form_v1_steps)
  subgoal by (rule emits_seq_nth[of 6]) (simp_all add: grows_fill_form_steps grows_fill_form_v1_steps)
  subgoal by (rule emits_seq_nth[of 7]) (simp_all add: grows_fill_form_steps grows_fill_form_v1_steps)
  subgoal by (rule emits_seq_nth[of 8]) (simp_all add: grows_fill_form_steps grows_fill_form_v1_steps)
  subgoal by (rule emits_seq_nth[of 9]) (simp_all add: grows_fill_form_steps grows_fill_form_v1_steps)
  done

lemma session_defaults:
  "width opts = None \<Longrightarrow> session w opts d p = session w (opts\<lparr>width := Some (Num 300)\<rparr>) d p"
  "height opts = None \<Longrightarrow> session w opts d p = session w (opts\<lparr>height := Some (Num 300)\<rparr>) d p"
  "borderRadius opts = None \<Longrightarrow>
     session w opts d p = session w (opts\<lparr>borderRadius := Some (Num 0)\<rparr>) d p"
  "margin opts = None \<Longrightarrow> session w opts d p = session w (opts\<lparr>margin := Some (Num 10)\<rparr>) d p"
  "imageMargin opts = None \<Longrightarrow>
     session w opts d p = session w (opts\<lparr>imageMargin := Some (Num 0)\<rparr>) d p"
  by (simp_all add: session_def prepare_def fill_form_def set_dot_type_def
        set_corner_square_type_def set_corner_dot_type_def set_error_correction_level_def
        orDefault_def)

lemma session_v1_defaults:
  "width opts = None \<Longrightarrow>
     session_v1 w opts d p = session_v1 w (opts\<lparr>width := Some (Num 300)\<rparr>) d p"
  "height opts = None \<Longrightarrow>
     session_v1 w opts d p = session_v1 w (opts\<lparr>height := Some (Num 300)\<rparr>) d p"
  "borderRadius opts = None \<Longrightarrow>
     session_v1 w opts d p = session_v1 w (opts\<lparr>borderRadius := Some (Num 0)\<rparr>) d p"
  "margin opts = None \<Longrightarrow>
     session_v1 w opts d p = session_v1 w (opts\<lparr>margin := Some (Num 10)\<rparr>) d p"
  "imageMargin opts = None \<Longrightarrow>
     session_v1 w opts d p = session_v1 w (opts\<lparr>imageMargin := Some (Num 0)\<rparr>) d p"
  by (simp_all add: session_v1_def prepare_v1_def fill_form_v1_def
        set_dot_type_v1_def set_corner_square_type_v1_def set_corner_dot_type_v1_def
        set_error_correction_level_v1_def orDefault_def)

lemma default_dimensions:
  "width opts = None \<Longrightarrow> generateQRCode w opts = generateQRCode w (opts\<lparr>width := Some (Num 300)\<rparr>)"
  "height opts = None \<Longrightarrow> generateQRCode w opts = generateQRCode w (opts\<lparr>height := Some (Num 300)\<rparr>)"
  "borderRadius opts = None \<Longrightarrow>
     generateQRCode w opts = generateQRCode w (opts\<lparr>borderRadius := Some (Num 0)\<rparr>)"
  "margin opts = None \<Longrightarrow> generateQRCode w opts = generateQRCode w (opts\<lparr>margin := Some (Num 10)\<rparr>)"
  "imageMargin opts = None \<Longrightarrow>
     generateQRCode w opts = generateQRCode w (opts\<lparr>imageMargin := Some (Num 0)\<rparr>)"
  by (cases "data opts"; simp add: generateQRCode_def session_defaults[symmetric])+

lemma default_dimensions_v1:
  "width opts = None \<Longrightarrow>
     generateQRCode_v1 w opts = generateQRCode_v1 w (opts\<lparr>width := Some (Num 300)\<rparr>)"
  "height opts = None \<Longrightarrow>
     generateQRCode_v1 w opts = generateQRCode_v1 w (opts\<lparr>height := Some (Num 300)\<rparr>)"
  "borderRadius opts = None \<Longrightarrow>
     generateQRCode_v1 w opts = generateQRCode_v1 w (opts\<lparr>borderRadius := Some (Num 0)\<rparr>)"
  "margin opts = None \<Longrightarrow>
     generateQRCode_v1 w opts = generateQRCode_v1 w (opts\<lparr>margin := Some (Num 10)\<rparr>)"
  "imageMargin opts = None \<Longrightarrow>
     generateQRCode_v1 w opts = generateQRCode_v1 w (opts\<lparr>imageMargin := Some (Num 0)\<rparr>)"
  by (cases "data opts"; simp add: generateQRCode_v1_def session_v1_defaults[symmetric])+

lemma get_generate_200:
  assumes "get_generate gen w q s = (resp, s')" and "status resp = 200"
  shows "\<exists>b. gen w (query_options q) s = (Inr b, s')"
proof (cases "gen w (query_options q) s")
  case (Pair r s1)
  show ?thesis
  proof (cases r)
    case (Inl e)
    then show ?thesis using assms Pair by (auto simp: get_generate_def error_response_def)
  next
    case (Inr b)
    then show ?thesis
      using assms Pair by (auto simp: get_generate_def Let_def error_response_def split: option.splits)
  qed
qed

lemma query_options_numeric:
  "width (query_options q) = numeric q ''width''" "height (query_options q) = numeric q ''height''"
  "borderRadius (query_options q) = numeric q ''borderRadius''"
  "margin (query_options q) = numeric q ''margin''"
  "imageMargin (query_options q) = numeric q ''imageMargin''"
  "data (query_options q) = q ''data''" "format (query_options q) = q ''format''"
  by (simp_all add: query_options_def)

subsection \<open>The download directory\<close>

lemma map_of_write_files: "map_of (write_files L F) = map_of F ++ map_of (rev L)"
  unfolding write_files_def
proof (induction L arbitrary: F)
  case Nil
  then show ?case by simp
next
  case (Cons e L)
  have "map_of (fold (\<lambda>e. AList.update (fst e) (snd e)) (e # L) F)
      = map_of (AList.update (fst e) (snd e) F) ++ map_of (rev L)"
    using Cons.IH[of "AList.update (fst e) (snd e) F"] by simp
  also have "\<dots> = (map_of F ++ map_of [e]) ++ map_of (rev L)"
    by (cases e) (simp add: update_conv' map_add_upd_left)
  also have "\<dots> = map_of F ++ map_of (rev (e # L))"
    by (simp add: map_add_assoc)
  finally show ?case .
qed

lemma find_sort_key_least:
  assumes "find P (sort_key rk xs) = Some f"
  shows "f \<in> set xs" and "P f" and "\<forall>g\<in>set xs. P g \<longrightarrow> rk f \<le> rk g"
proof -
  let ?ys = "sort_key rk xs"
  obtain i where i: "i < length ?ys" "P (?ys ! i)" "f = ?ys ! i" "\<forall>j<i. \<not> P (?ys ! j)"
    using assms unfolding find_Some_iff by blast
  show "f \<in> set xs" using i(1,3) by (metis nth_mem set_sort)
  show "P f" using i(2,3) by simp
  show "\<forall>g\<in>set xs. P g \<longrightarrow> rk f \<le> rk g"
  proof (intro ballI impI)
    fix g assume g: "g \<in> set xs" "P g"
    then obtain j where j: "j < length ?ys" "?ys ! j = g"
      by (metis in_set_conv_nth set_sort)
    have "i \<le> j" using i(4) j g(2) by (metis not_le_imp_less)
    have "sorted (map rk ?ys)" by (rule sorted_sort_key)
    then have "map rk ?ys ! i \<le> map rk ?ys ! j"
      using \<open>i \<le> j\<close> j(1) by (simp add: sorted_iff_nth_mono)
    then show "rk f \<le> rk g" using i(1,3) j by simp
  qed
qed

lemma find_sort_key_None:
  "find P (sort_key rk xs) = None \<longleftrightarrow> (\<forall>x\<in>set xs. \<not> P x)"
  by (auto simp: find_None_iff)

subsection \<open>Response headers\<close>

lemma header_ok_append [simp]: "header_ok (a @ b) = (header_ok a \<and> header_ok b)"
  by (simp add: header_ok_def)

lemma header_ok_fixed [simp]:
  "header_ok ''image/''" "header_ok ''image/svg+xml''" "header_ok ''attachment; filename=\"qrcode.''"
  "header_ok ''\"''" "header_ok ''png''" "header_ok ''jpeg''" "header_ok ''svg''"
  by (simp_all add: header_ok_def)

lemma header_ok_contentType [simp]: "header_ok (contentType fmt) = header_ok fmt"
  by (auto simp: contentType_def header_ok_def)

lemma header_ok_disposition [simp]:
  "header_ok (''attachment; filename=\"qrcode.'' @ fmt @ ''\"'') = header_ok fmt"
  by (simp add: header_ok_def)

lemma post_generate_Inr:
  assumes "gen w opts s = (Inr b, s')"
  shows "post_generate gen w opts s =
     (if header_ok (orElse (format opts) ''png'')
      then (\<lparr>status = 200, content_type = Some (contentType (orElse (format opts) ''png'')),
             content_disposition =
               Some (''attachment; filename=\"qrcode.'' @ orElse (format opts) ''png'' @ ''\"''),
             body = Raw b\<rparr>, s')
      else (error_response (Error ''Invalid character in header content [\"Content-Type\"]''), s'))"
  using assms header_ok_disposition[of "orElse (format opts) ''png''"]
  by (simp add: post_generate_def Let_def res_set_def del: header_ok_disposition)

lemma get_generate_Inr:
  assumes "gen w (query_options q) s = (Inr b, s')"
  shows "get_generate gen w q s =
     (if header_ok (orElse (q ''format'') ''png'')
      then (\<lparr>status = 200, content_type = Some (contentType (orElse (q ''format'') ''png'')),
             content_disposition = None, body = Raw b\<rparr>, s')
      else (error_response (Error ''Invalid character in header content [\"Content-Type\"]''), s'))"
  using assms by (simp add: get_generate_def Let_def res_set_def query_options_numeric)

lemma header_ok_known_format:
  "f = None \<or> f = Some ''png'' \<or> f = Some ''jpeg'' \<or> f = Some ''svg'' \<Longrightarrow> header_ok (orElse f ''png'')"
  by (auto simp: orElse_def)

subsection \<open>Evaluation of sample runs\<close>

lemmas prims = resolve_def throw_def await_def ifThen_def try_finally_def act_def ask_def sleep_def
  getBrowser_def newPage_def closePage_def query_def Let_def truthy_def orDefault_def

lemmas gen2 = generateQRCode_def session_def prepare_def fill_form_def set_dot_type_def
  set_corner_square_type_def set_corner_dot_type_def set_error_correction_level_def setInputById_def setColorById_def
  selectRadioById_def click_download_def write_files_def read_download_def readdir_def readFile_def
  unlink_def
  buttonId_def ext_def downloadPath_def MINI_QR_URL_def DOT_TYPES_def CORNER_SQUARE_TYPES_def
  CORNER_DOT_TYPES_def ERROR_CORRECTION_LEVELS_def

lemma show_nat_small: "show_nat 300 = ''300''" "show_nat 0 = ''0''" "show_nat 10 = ''10''"
  by (simp_all add: show_nat.simps digit_char_def)

lemma String_num_defaults [simp]:
  "String_num (Num 300) = ''300''" "String_num (Num 0) = ''0''" "String_num (Num 10) = ''10''"
  using String_num_small(1)[of 300] String_num_small(1)[of 0] String_num_small(1)[of 10]
  by (simp_all add: show_nat_small)

lemma endsWith_png: "endsWith ''qr-code.png'' ''.png''"
  by (simp add: endsWith_def)

lemma run_hello:
  "fst (generateQRCode base_world hello init) = Inr [137, 80, 78, 71]"
  by (simp add: prims gen2 hello_def no_options_def base_world_def init_def show_nat_small endsWith_png)

lemmas gen1 = generateQRCode_v1_def session_v1_def prepare_v1_def fill_form_v1_def
  set_dot_type_v1_def set_corner_square_type_v1_def set_corner_dot_type_v1_def
  set_error_correction_level_v1_def type_data_def
  expand_accordion_def expand_button_def setColorInput_def setTextInputByLabel_def
  selectRadioOption_def query_labels_def capture_def MINI_QR_URL_def DOT_TYPES_v1_def
  CORNER_SQUARE_TYPES_v1_def CORNER_DOT_TYPES_v1_def ERROR_CORRECTION_LEVELS_v1_def

lemma run_hello_v1_svg:
  "fst (generateQRCode_v1 base_world (hello\<lparr>format := Some ''svg''\<rparr>) init)
     = Inr (Buffer_from ''<svg></svg>'')"
  by (simp add: prims gen1 hello_def no_options_def base_world_def init_def show_nat_small)

lemma run_hello_no_launch:
  "generateQRCode no_launch hello init
     = (Inl (Error ''Failed to launch the browser process''), init\<lparr>trace := [Launch]\<rparr>)"
  by (simp add: prims generateQRCode_def hello_def no_options_def no_launch_def base_world_def init_def)

lemma unreadable_fault:
  "fault unreadable h a = (if a = ReadFile ''/tmp/qr-downloads/qr-code.png''
     then Some (Error ''EIO: i/o error, read'') else None)"
  by (simp add: unreadable_def base_world_def)

lemma unreadable_page:
  "found unreadable h sel" "landed unreadable h = [(''qr-code.png'', [137, 80, 78, 71])]"
  "dir_order unreadable h n = 0"
  by (simp_all add: unreadable_def base_world_def)

lemma base_world_page:
  "fault base_world h a = None" "found base_world h sel"
  "landed base_world h = [(''qr-code.png'', [137, 80, 78, 71])]" "dir_order base_world h n = 0"
  "labels base_world h = []" "buttons base_world h = 0"
  "svg_markup base_world h = Some ''<svg></svg>''" "shot base_world h ty = [255, 216, 255]"
  by (simp_all add: base_world_def)

lemma no_svg_page:
  "quiet no_svg" "found no_svg h sel" "labels no_svg h = []" "svg_markup no_svg h = None"
  by (simp_all add: no_svg_def base_world_def quiet_def)

lemma no_container_page:
  "quiet no_container" "found no_container h sel = (sel \<noteq> ''#element-to-export'')"
  "labels no_container h = []"
  by (simp_all add: no_container_def base_world_def quiet_def)

lemma ordered_worlds:
  "quiet fresh_first" "landed fresh_first h = [(''qr-code.png'', [137, 80, 78, 71])]"
  "dir_order fresh_first h = (\<lambda>n. if n = ''qr-code.png'' then 0 else 1)"
  "quiet stale_first" "landed stale_first h = [(''qr-code.png'', [137, 80, 78, 71])]"
  "dir_order stale_first h = (\<lambda>n. if n = ''zzz.png'' then 0 else 1)"
  by (simp_all add: fresh_first_def stale_first_def base_world_def quiet_def)

lemma accented_page:
  "quiet accented" "found accented h sel" "labels accented h = []"
  "svg_markup accented h = Some (''<svg>'' @ [CHR 0xE9] @ ''</svg>'')"
  by (simp_all add: accented_def base_world_def quiet_def)

section \<open>The claims\<close>

text \<open>
  Claim C1. When the \<open>data\<close> field is absent or the empty string, \<open>generateQRCode\<close> (in
  both files) fails with the message "Data to encode is required" and the state is the
  one it started in: nothing was logged, so no browser was launched or touched and no
  page was created.
\<close>

theorem missing_data_rejected_before_browser:
  assumes "data opts = None \<or> data opts = Some []"
  shows "generateQRCode w opts s = (Inl (Error ''Data to encode is required''), s)
       \<and> generateQRCode_v1 w opts s = (Inl (Error ''Data to encode is required''), s)"
  using assms by (auto simp: generateQRCode_def generateQRCode_v1_def throw_def)

theorem missing_data_rejected_witness:
  "generateQRCode base_world no_options init = (Inl (Error ''Data to encode is required''), init)
   \<and> generateQRCode_v1 base_world no_options init = (Inl (Error ''Data to encode is required''), init)
   \<and> generateQRCode base_world (no_options\<lparr>data := Some []\<rparr>) init
        = (Inl (Error ''Data to encode is required''), init)
   \<and> generateQRCode_v1 base_world (no_options\<lparr>data := Some []\<rparr>) init
        = (Inl (Error ''Data to encode is required''), init)
   \<and> trace init = [] \<and> browser init = None \<and> pages init = []"
  using missing_data_rejected_before_browser[of no_options base_world init]
    missing_data_rejected_before_browser[of "no_options\<lparr>data := Some []\<rparr>" base_world init]
  by (simp add: no_options_def init_def)




text \<open>
  Claim C5. \<open>getBrowser\<close> returns the cached handle when there is one and leaves the state
  as it is; otherwise it launches, and caches the new session as the single live one.
  When the launch throws, the error is the result, the variable stays \<open>null\<close> and no
  session is added, and the next call launches again. A call that returned a handle is
  followed by calls that return the same handle. Where the sessions are the one the
  variable holds, they stay so: there is at most one.
\<close>

theorem getBrowser_single_session:
  "(browser s = Some b \<longrightarrow> getBrowser w s = (Inr b, s))
   \<and> (browser s = None \<and> fault w (trace s) Launch = None \<longrightarrow>
        (\<exists>s'. getBrowser w s = (Inr (next_id s), s') \<and> browser s' = Some (next_id s)
              \<and> sessions s' = sessions s @ [next_id s]))
   \<and> (browser s = None \<and> fault w (trace s) Launch = Some e \<longrightarrow>
        (\<exists>s'. getBrowser w s = (Inl e, s') \<and> browser s' = None \<and> sessions s' = sessions s
              \<and> trace (snd (getBrowser w' s')) = trace s' @ [Launch]))
   \<and> (getBrowser w s = (Inr b, s') \<longrightarrow> getBrowser w' s' = (Inr b, s'))
   \<and> (one_session s \<longrightarrow>
        one_session (snd (getBrowser w s)) \<and> length (sessions (snd (getBrowser w s))) \<le> 1)"
proof (intro conjI impI)
  show "browser s = Some b \<Longrightarrow> getBrowser w s = (Inr b, s)"
    by (rule getBrowser_cached)
  show "browser s = None \<and> fault w (trace s) Launch = None \<Longrightarrow>
        \<exists>s'. getBrowser w s = (Inr (next_id s), s') \<and> browser s' = Some (next_id s)
              \<and> sessions s' = sessions s @ [next_id s]"
    by (simp add: getBrowser_launch)
  show "browser s = None \<and> fault w (trace s) Launch = Some e \<Longrightarrow>
        \<exists>s'. getBrowser w s = (Inl e, s') \<and> browser s' = None \<and> sessions s' = sessions s
              \<and> trace (snd (getBrowser w' s')) = trace s' @ [Launch]"
    by (simp add: getBrowser_fails) (simp add: getBrowser_def act_def split: option.split)
  show "getBrowser w s = (Inr b, s') \<Longrightarrow> getBrowser w' s' = (Inr b, s')"
    using getBrowser_inv(5)[of w s "Inr b" s' b] by (simp add: getBrowser_cached)
  assume o: "one_session s"
  obtain r s1 where g: "getBrowser w s = (r, s1)" by (cases "getBrowser w s")
  have "one_session s1" using getBrowser_inv(3)[OF g o] .
  then show "one_session (snd (getBrowser w s))" using g by simp
  then show "length (sessions (snd (getBrowser w s))) \<le> 1"
    by (auto simp: one_session_def split: option.splits)
qed

theorem getBrowser_witness:
  "getBrowser base_world init
     = (Inr 0, init\<lparr>trace := [Launch], browser := Some 0, sessions := [0], next_id := 1\<rparr>)
   \<and> getBrowser base_world (snd (getBrowser base_world init)) = getBrowser base_world init
   \<and> getBrowser no_launch init
     = (Inl (Error ''Failed to launch the browser process''), init\<lparr>trace := [Launch]\<rparr>)
   \<and> trace (snd (getBrowser no_launch (snd (getBrowser no_launch init)))) = [Launch, Launch]
   \<and> getBrowser base_world (snd (getBrowser no_launch init))
     = (Inr 0, init\<lparr>trace := [Launch, Launch], browser := Some 0, sessions := [0], next_id := 1\<rparr>)
   \<and> length (sessions (snd (getBrowser base_world init))) \<le> 1"
proof -
  let ?S1 = "init\<lparr>trace := [Launch], browser := Some 0, sessions := [0], next_id := 1\<rparr>"
  have a: "browser init = None \<and> fault base_world (trace init) Launch = None \<and> one_session init
       \<and> next_id init = 0 \<and> trace init = [] \<and> sessions init = []"
    by (simp add: init_def base_world_def one_session_def)
  have b: "fault no_launch (trace init) Launch = Some (Error ''Failed to launch the browser process'')"
    by (simp add: no_launch_def base_world_def)
  have g: "getBrowser base_world init = (Inr 0, ?S1)"
    by (simp add: prims init_def base_world_def)
  show ?thesis
    using getBrowser_single_session[where s=init and b=0 and w=base_world and w'=base_world
              and s'="?S1"]
      getBrowser_single_session[where s=init and w=no_launch and w'=no_launch
              and e="Error ''Failed to launch the browser process''"] a b g
    by (auto simp: prims init_def base_world_def no_launch_def)
qed

text \<open>
  Claim C6. Whenever \<open>generateQRCode\<close> throws, for any reason, the handlers of
  \<open>POST /generate\<close> and \<open>GET /generate\<close> answer with status 500 and the JSON body
  \<open>{error: message}\<close> of the error thrown, and leave the state as the failed call left it;
  for missing data the message is "Data to encode is required". The handler returns a
  response in every case: no error escapes it.
\<close>

theorem errors_become_500:
  assumes "gen = generateQRCode \<or> gen = generateQRCode_v1"
  shows "(gen w opts s = (Inl e, s') \<longrightarrow>
            post_generate gen w opts s
              = (\<lparr>status = 500, content_type = Some ''application/json; charset=utf-8'',
                  content_disposition = None, body = Json_error (message e)\<rparr>, s'))
       \<and> (gen w (query_options q) s = (Inl e, s') \<longrightarrow>
            get_generate gen w q s
              = (\<lparr>status = 500, content_type = Some ''application/json; charset=utf-8'',
                  content_disposition = None, body = Json_error (message e)\<rparr>, s'))
       \<and> (data opts = None \<or> data opts = Some [] \<longrightarrow>
            fst (post_generate gen w opts s)
              = \<lparr>status = 500, content_type = Some ''application/json; charset=utf-8'',
                  content_disposition = None, body = Json_error ''Data to encode is required''\<rparr>)
       \<and> (q ''data'' = None \<or> q ''data'' = Some [] \<longrightarrow>
            fst (get_generate gen w q s)
              = \<lparr>status = 500, content_type = Some ''application/json; charset=utf-8'',
                  content_disposition = None, body = Json_error ''Data to encode is required''\<rparr>)"
proof -
  have v: "gen w o' s = (Inl (Error ''Data to encode is required''), s)"
    if "data o' = None \<or> data o' = Some []" for o'
    using that assms by (auto simp: generateQRCode_def generateQRCode_v1_def throw_def)
  have dq: "data (query_options q) = q ''data''" by (simp add: query_options_def)
  show ?thesis
    using v[of opts] v[of "query_options q"] dq
    by (auto simp: post_generate_def get_generate_def error_response_def)
qed

theorem errors_become_500_witness:
  "fst (post_generate generateQRCode base_world no_options init)
     = \<lparr>status = 500, content_type = Some ''application/json; charset=utf-8'',
        content_disposition = None, body = Json_error ''Data to encode is required''\<rparr>
   \<and> fst (get_generate generateQRCode_v1 base_world (\<lambda>k. None) init)
     = \<lparr>status = 500, content_type = Some ''application/json; charset=utf-8'',
        content_disposition = None, body = Json_error ''Data to encode is required''\<rparr>
   \<and> fst (post_generate generateQRCode no_launch hello init)
     = \<lparr>status = 500, content_type = Some ''application/json; charset=utf-8'',
        content_disposition = None, body = Json_error ''Failed to launch the browser process''\<rparr>"
  using errors_become_500[where gen=generateQRCode and opts=no_options and w=base_world and s=init]
    errors_become_500[where gen=generateQRCode_v1 and q="\<lambda>k. None" and w=base_world and s=init]
    errors_become_500[where gen=generateQRCode and opts=hello and w=no_launch and s=init
      and e="Error ''Failed to launch the browser process''" and s'="init\<lparr>trace := [Launch]\<rparr>"]
    run_hello_no_launch
  by (simp add: no_options_def)

text \<open>
  Claim C7. When the generation succeeds and the format is omitted or one of \<open>png\<close>,
  \<open>jpeg\<close>, \<open>svg\<close>, the answer has status 200 and the Content-Type \<open>image/svg+xml\<close> for
  \<open>svg\<close>, \<open>image/jpeg\<close> for \<open>jpeg\<close> and \<open>image/png\<close> for \<open>png\<close> and for no format;
  \<open>POST /generate\<close> adds \<open>Content-Disposition: attachment; filename="qrcode.<format>"\<close>,
  \<open>GET /generate\<close> sets no such header.
\<close>

theorem content_type_follows_format:
  assumes "gen = generateQRCode \<or> gen = generateQRCode_v1"
  shows "(gen w opts s = (Inr buf, s')
            \<and> (format opts = None \<or> format opts = Some ''png'' \<or> format opts = Some ''jpeg''
                \<or> format opts = Some ''svg'') \<longrightarrow>
          post_generate gen w opts s
            = (\<lparr>status = 200,
                content_type =
                  Some (if format opts = Some ''svg'' then ''image/svg+xml''
                        else if format opts = Some ''jpeg'' then ''image/jpeg'' else ''image/png''),
                content_disposition =
                  Some (''attachment; filename=\"qrcode.'' @ orDefault ''png'' (format opts) @ ''\"''),
                body = Raw buf\<rparr>, s'))
       \<and> (gen w (query_options q) s = (Inr buf, s')
            \<and> (q ''format'' = None \<or> q ''format'' = Some ''png'' \<or> q ''format'' = Some ''jpeg''
                \<or> q ''format'' = Some ''svg'') \<longrightarrow>
          get_generate gen w q s
            = (\<lparr>status = 200,
                content_type =
                  Some (if q ''format'' = Some ''svg'' then ''image/svg+xml''
                        else if q ''format'' = Some ''jpeg'' then ''image/jpeg'' else ''image/png''),
                content_disposition = None,
                body = Raw buf\<rparr>, s'))"
proof -
  have fq: "format (query_options q) = q ''format''" by (simp add: query_options_def)
  have ct: "contentType (orElse f ''png'')
              = (if f = Some ''svg'' then ''image/svg+xml''
                 else if f = Some ''jpeg'' then ''image/jpeg'' else ''image/png'')
            \<and> orDefault ''png'' f = orElse f ''png''"
    if "f = None \<or> f = Some ''png'' \<or> f = Some ''jpeg'' \<or> f = Some ''svg''" for f
    using that by (auto simp: contentType_def orElse_def orDefault_def)
  have "post_generate gen w opts s
          = (\<lparr>status = 200,
              content_type =
                Some (if format opts = Some ''svg'' then ''image/svg+xml''
                      else if format opts = Some ''jpeg'' then ''image/jpeg'' else ''image/png''),
              content_disposition =
                Some (''attachment; filename=\"qrcode.'' @ orDefault ''png'' (format opts) @ ''\"''),
              body = Raw buf\<rparr>, s')"
    if "gen w opts s = (Inr buf, s')"
      and "format opts = None \<or> format opts = Some ''png'' \<or> format opts = Some ''jpeg''
           \<or> format opts = Some ''svg''"
    using ct[OF that(2)] header_ok_known_format[OF that(2)]
    by (simp add: post_generate_Inr[where gen=gen and w=w and opts=opts and s=s, OF that(1)])
  moreover have "get_generate gen w q s
          = (\<lparr>status = 200,
              content_type =
                Some (if q ''format'' = Some ''svg'' then ''image/svg+xml''
                      else if q ''format'' = Some ''jpeg'' then ''image/jpeg'' else ''image/png''),
              content_disposition = None,
              body = Raw buf\<rparr>, s')"
    if "gen w (query_options q) s = (Inr buf, s')"
      and "q ''format'' = None \<or> q ''format'' = Some ''png'' \<or> q ''format'' = Some ''jpeg''
           \<or> q ''format'' = Some ''svg''"
    using ct[OF that(2)] header_ok_known_format[OF that(2)]
    by (simp add: get_generate_Inr[where gen=gen and w=w and q=q and s=s, OF that(1)] fq)
  ultimately show ?thesis by blast
qed

theorem content_type_witness:
  "fst (post_generate generateQRCode base_world hello init)
     = \<lparr>status = 200, content_type = Some ''image/png'',
        content_disposition = Some ''attachment; filename=\"qrcode.png\"'',
        body = Raw [137, 80, 78, 71]\<rparr>
   \<and> fst (post_generate generateQRCode_v1 base_world (hello\<lparr>format := Some ''svg''\<rparr>) init)
     = \<lparr>status = 200, content_type = Some ''image/svg+xml'',
        content_disposition = Some ''attachment; filename=\"qrcode.svg\"'',
        body = Raw (Buffer_from ''<svg></svg>'')\<rparr>"
proof -
  let ?a = "generateQRCode base_world hello init"
  let ?b = "generateQRCode_v1 base_world (hello\<lparr>format := Some ''svg''\<rparr>) init"
  have a: "?a = (Inr [137, 80, 78, 71], snd ?a)" using run_hello by (metis prod.collapse)
  have b: "?b = (Inr (Buffer_from ''<svg></svg>''), snd ?b)"
    using run_hello_v1_svg by (metis prod.collapse)
  have f: "format hello = None" by (simp add: hello_def no_options_def)
  show ?thesis
    using content_type_follows_format[where gen=generateQRCode and w=base_world and opts=hello
        and s=init and buf="[137, 80, 78, 71]" and s'="snd ?a"]
      content_type_follows_format[where gen=generateQRCode_v1 and w=base_world
        and opts="hello\<lparr>format := Some ''svg''\<rparr>" and s=init
        and buf="Buffer_from ''<svg></svg>''" and s'="snd ?b"] a b f
    by (simp add: orDefault_def)
qed

text \<open>
  Claim C3, as amended. In \<open>src/api/server.js\<close>, in a world where no call throws, the
  export leaves the files \<open>L\<close> and the file system lists a directory by \<open>rank\<close>: the
  directory \<open>/tmp/qr-downloads\<close> then holds what it held, the files of \<open>L\<close> written over
  those of the same name, and it is scanned for the names that end in a dot and the
  format, \<open>jpg\<close> standing for \<open>jpeg\<close>. With no such name the call fails with "Download
  failed - no file found", and the directory stays as the download left it. Otherwise
  the file that is read is the first such name of the listing, one of the least rank: it
  may be a file that an earlier request left there, not the new download. Its bytes are
  the result, and it is removed before the call returns, every other file staying as it
  is.
\<close>

theorem download_found_read_and_removed:
  assumes "quiet w" and "data opts = Some d" and "d \<noteq> []"
    and "\<forall>h. landed w h = L" and "\<forall>h. dir_order w h = rank"
  shows "let fmt = orDefault ''png'' (format opts);
             suffix = ''.'' @ (if fmt = ''jpeg'' then ''jpg'' else fmt);
             names = fst ` set (files s) \<union> fst ` set L;
             content = map_of (files s) ++ map_of (rev L);
             r = generateQRCode w opts s
         in ((\<forall>f\<in>names. \<not> endsWith f suffix) \<longrightarrow>
               fst r = Inl (Error ''Download failed - no file found'')
               \<and> map_of (files (snd r)) = content)
          \<and> ((\<exists>f\<in>names. endsWith f suffix) \<longrightarrow>
               (\<exists>f b. f \<in> names \<and> endsWith f suffix
                    \<and> (\<forall>g\<in>names. endsWith g suffix \<longrightarrow> rank f \<le> rank g)
                    \<and> content f = Some b \<and> fst r = Inr b
                    \<and> map_of (files (snd r)) f = None
                    \<and> (\<forall>n. n \<noteq> f \<longrightarrow> map_of (files (snd r)) n = content n)))"
proof -
  define fmt where "fmt = orDefault ''png'' (format opts)"
  define suffix where "suffix = ''.'' @ ext fmt"
  define names where "names = fst ` set (files s) \<union> fst ` set L"
  define content where "content = map_of (files s) ++ map_of (rev L)"
  define r where "r = generateQRCode w opts s"
  obtain p h where G: "download_outcome w opts s p h"
    using gen2_run[OF assms(1-3), of s] by (elim exE)
  define D where "D = write_files L (files s)"
  define ls where "ls = sort_key rank (map fst D)"
  have g: "case find (\<lambda>f. endsWith f suffix) ls of
             None \<Rightarrow> fst r = Inl (Error ''Download failed - no file found'') \<and> files (snd r) = D
           | Some f \<Rightarrow> map_of D f \<noteq> None \<and> fst r = Inr (the (map_of D f))
                      \<and> files (snd r) = AList.delete f D"
    using G
    unfolding download_outcome_def Let_def assms(4)[rule_format] assms(5)[rule_format]
      fmt_def[symmetric] suffix_def[symmetric] r_def[symmetric] D_def[symmetric] ls_def[symmetric]
    by (simp split: option.splits)
  have nm: "set (map fst D) = names" by (simp add: D_def names_def write_files_names Un_commute)
  have ct: "map_of D = content" by (simp add: D_def content_def map_of_write_files)
  have a: "fst r = Inl (Error ''Download failed - no file found'') \<and> map_of (files (snd r)) = content"
    if "\<forall>f\<in>names. \<not> endsWith f suffix"
  proof -
    have "find (\<lambda>f. endsWith f suffix) ls = None"
      unfolding ls_def find_sort_key_None nm using that .
    then show ?thesis using g ct by simp
  qed
  have b: "\<exists>f b. f \<in> names \<and> endsWith f suffix
                    \<and> (\<forall>g\<in>names. endsWith g suffix \<longrightarrow> rank f \<le> rank g)
                    \<and> content f = Some b \<and> fst r = Inr b
                    \<and> map_of (files (snd r)) f = None
                    \<and> (\<forall>n. n \<noteq> f \<longrightarrow> map_of (files (snd r)) n = content n)"
    if "\<exists>f\<in>names. endsWith f suffix"
  proof -
    have "find (\<lambda>f. endsWith f suffix) ls \<noteq> None"
      unfolding ls_def find_sort_key_None nm using that by simp
    then obtain f where f: "find (\<lambda>f. endsWith f suffix) ls = Some f" by blast
    note l = find_sort_key_least[OF f[unfolded ls_def], unfolded nm]
    obtain c where c: "map_of D f = Some c" "fst r = Inr c" "files (snd r) = AList.delete f D"
      using g unfolding f by auto
    have "map_of (files (snd r)) f = None" unfolding c(3) by (simp add: delete_conv')
    moreover have "\<forall>n. n \<noteq> f \<longrightarrow> map_of (files (snd r)) n = content n"
      unfolding c(3) by (simp add: delete_conv' ct)
    ultimately show ?thesis using l c(1,2) ct by blast
  qed
  have e: "(if fmt = ''jpeg'' then ''jpg'' else fmt) = ext fmt" by (simp add: ext_def)
  show ?thesis
    unfolding Let_def fmt_def[symmetric] e suffix_def[symmetric] names_def[symmetric]
      content_def[symmetric] r_def[symmetric]
    using a b by blast
qed

theorem download_witness:
  "fst (generateQRCode base_world hello init) = Inr [137, 80, 78, 71]
   \<and> map_of (files (snd (generateQRCode base_world hello init))) ''qr-code.png'' = None
   \<and> fst (generateQRCode base_world (hello\<lparr>format := Some ''jpeg''\<rparr>) init)
       = Inl (Error ''Download failed - no file found'')
   \<and> fst (generateQRCode fresh_first hello stale) = Inr [137, 80, 78, 71]
   \<and> map_of (files (snd (generateQRCode fresh_first hello stale))) ''zzz.png'' = Some [1, 2, 3]
   \<and> fst (generateQRCode stale_first hello stale) = Inr [1, 2, 3]
   \<and> map_of (files (snd (generateQRCode stale_first hello stale))) ''qr-code.png''
       = Some [137, 80, 78, 71]"
proof -
  have d: "data hello = Some ''Hello World''" "format hello = None"
    "data (hello\<lparr>format := Some ''jpeg''\<rparr>) = Some ''Hello World''"
    "format (hello\<lparr>format := Some ''jpeg''\<rparr>) = Some ''jpeg''"
    by (simp_all add: hello_def no_options_def)
  have e: "\<not> endsWith ''qr-code.png'' ''.jpg''" "endsWith ''zzz.png'' ''.png''"
    by (simp_all add: endsWith_def)
  have f: "files init = []" "files stale = [(''zzz.png'', [1, 2, 3])]"
    by (simp_all add: init_def stale_def)
  have bw: "\<forall>h. landed base_world h = [(''qr-code.png'', [137, 80, 78, 71])]"
    "\<forall>h. dir_order base_world h = (\<lambda>_. 0)"
    by (simp_all add: base_world_def)
  have ff: "\<forall>h. landed fresh_first h = [(''qr-code.png'', [137, 80, 78, 71])]"
    "\<forall>h. dir_order fresh_first h = (\<lambda>n. if n = ''qr-code.png'' then 0 else 1)"
    by (simp_all add: ordered_worlds)
  have sf: "\<forall>h. landed stale_first h = [(''qr-code.png'', [137, 80, 78, 71])]"
    "\<forall>h. dir_order stale_first h = (\<lambda>n. if n = ''zzz.png'' then 0 else 1)"
    by (simp_all add: ordered_worlds)
  have 1: "fst (generateQRCode base_world hello init) = Inr [137, 80, 78, 71]
      \<and> map_of (files (snd (generateQRCode base_world hello init))) ''qr-code.png'' = None"
    using download_found_read_and_removed[OF quiet_base_world d(1) _ bw, where s=init]
    by (auto simp: Let_def d f orDefault_def endsWith_png)
  have 2: "fst (generateQRCode base_world (hello\<lparr>format := Some ''jpeg''\<rparr>) init)
       = Inl (Error ''Download failed - no file found'')"
    using download_found_read_and_removed[OF quiet_base_world d(3) _ bw, where s=init]
    by (simp add: Let_def d f orDefault_def e)
  have 3: "fst (generateQRCode fresh_first hello stale) = Inr [137, 80, 78, 71]
      \<and> map_of (files (snd (generateQRCode fresh_first hello stale))) ''zzz.png'' = Some [1, 2, 3]"
    using download_found_read_and_removed[OF ordered_worlds(1) d(1) _ ff, where s=stale]
    by (auto simp: Let_def d f orDefault_def endsWith_png e)
  have 4: "fst (generateQRCode stale_first hello stale) = Inr [1, 2, 3]
      \<and> map_of (files (snd (generateQRCode stale_first hello stale))) ''qr-code.png''
          = Some [137, 80, 78, 71]"
    using download_found_read_and_removed[OF ordered_worlds(4) d(1) _ sf, where s=stale]
    by (auto simp: Let_def d f orDefault_def endsWith_png e)
  show ?thesis using 1 2 3 4 by simp
qed

text \<open>
  The claim as stated fails where the read step fails: the file is found, \<open>readFile\<close>
  throws, and the file is still in the directory when the call has ended.
\<close>

theorem unread_download_left_behind:
  "fst (generateQRCode unreadable hello init) = Inl (Error ''EIO: i/o error, read'')
   \<and> files init = []
   \<and> files (snd (generateQRCode unreadable hello init)) = [(''qr-code.png'', [137, 80, 78, 71])]"
  by (simp add: prims gen2 hello_def no_options_def unreadable_fault unreadable_page init_def
        show_nat_small endsWith_png)

text \<open>
  Claim C8. In \<open>src/unnamed/part_000\<close> with the format \<open>svg\<close>, in a world where no call
  throws, the data input is there and every label sits in a group (so that the call
  reaches the extraction): without the container \<open>#element-to-export\<close> the call fails
  with "QR code element not found"; with the container but no \<open>svg\<close> element in it, it
  fails with "SVG element not found"; otherwise the result is the UTF-8 encoding of the
  \<open>outerHTML\<close> of that element: for each character the byte of its code when the code is
  below 128, and the two bytes \<open>192 + code div 64\<close>, \<open>128 + code mod 64\<close> otherwise. Markup
  in ASCII is so returned as the codes of its characters.
\<close>

theorem svg_serialized_or_missing:
  assumes "quiet w" and "data opts = Some d" and "d \<noteq> []" and "format opts = Some ''svg''"
    and "\<forall>h. found w h ''input.text-input''"
    and "\<forall>h. list_all (\<lambda>l. flex l \<noteq> None) (labels w h)"
  shows "((\<forall>h. \<not> found w h ''#element-to-export'') \<longrightarrow>
            fst (generateQRCode_v1 w opts s) = Inl (Error ''QR code element not found''))
       \<and> ((\<forall>h. found w h ''#element-to-export'') \<and> (\<forall>h. svg_markup w h = None) \<longrightarrow>
            fst (generateQRCode_v1 w opts s) = Inl (Error ''SVG element not found''))
       \<and> ((\<forall>h. found w h ''#element-to-export'') \<and> (\<forall>h. svg_markup w h = Some m) \<and> m \<noteq> [] \<longrightarrow>
            fst (generateQRCode_v1 w opts s)
              = Inr (concat (map (\<lambda>c. if (of_char c :: nat) < 128 then [of_nat (of_char c)]
                                      else [of_nat (192 + of_char c div 64),
                                            of_nat (128 + of_char c mod 64)]) m))
            \<and> ((\<forall>c\<in>set m. (of_char c :: nat) < 128) \<longrightarrow>
                 fst (generateQRCode_v1 w opts s) = Inr (map (\<lambda>c. of_nat (of_char c)) m)))"
proof -
  obtain p s3 where r: "fst (generateQRCode_v1 w opts s) = fst (capture w p ''svg'' s3)"
    using gen1_run[OF assms(1-3,5,6), of s] assms(4) by (auto simp: orDefault_def)
  note c = capture_quiet[OF assms(1), of p "''svg''" s3]
  have bf: "Buffer_from m = concat (map (\<lambda>c. if (of_char c :: nat) < 128 then [of_nat (of_char c)]
                                      else [of_nat (192 + of_char c div 64),
                                            of_nat (128 + of_char c mod 64)]) m)"
    unfolding Buffer_from_def by (rule arg_cong[of _ _ concat], rule map_cong) (simp_all add: utf8_def Let_def)
  have ascii: "concat (map (\<lambda>c. if (of_char c :: nat) < 128 then [of_nat (of_char c)]
                                      else [of_nat (192 + of_char c div 64),
                                            of_nat (128 + of_char c mod 64)]) m)
               = map (\<lambda>c. of_nat (of_char c) :: 8 word) m"
    if "\<forall>c\<in>set m. (of_char c :: nat) < 128"
    using that by (induction m) simp_all
  have "fst (capture w p ''svg'' s3) = Inl (Error ''QR code element not found'')"
    if "\<forall>h. \<not> found w h ''#element-to-export''"
    using that unfolding c by (simp add: Let_def)
  moreover have "fst (capture w p ''svg'' s3) = Inl (Error ''SVG element not found'')"
    if "\<forall>h. found w h ''#element-to-export''" "\<forall>h. svg_markup w h = None"
    using that unfolding c by (simp add: Let_def truthy_def)
  moreover have "fst (capture w p ''svg'' s3) = Inr (Buffer_from m)"
    if "\<forall>h. found w h ''#element-to-export''" "\<forall>h. svg_markup w h = Some m" "m \<noteq> []"
    using that unfolding c by (simp add: Let_def truthy_def orDefault_def)
  ultimately show ?thesis unfolding r bf[symmetric] using ascii[folded bf] by metis
qed

theorem svg_witness:
  "fst (generateQRCode_v1 base_world (hello\<lparr>format := Some ''svg''\<rparr>) init)
     = Inr [60, 115, 118, 103, 62, 60, 47, 115, 118, 103, 62]
   \<and> fst (generateQRCode_v1 accented (hello\<lparr>format := Some ''svg''\<rparr>) init)
     = Inr [60, 115, 118, 103, 62, 195, 169, 60, 47, 115, 118, 103, 62]
   \<and> fst (generateQRCode_v1 no_svg (hello\<lparr>format := Some ''svg''\<rparr>) init)
     = Inl (Error ''SVG element not found'')
   \<and> fst (generateQRCode_v1 no_container (hello\<lparr>format := Some ''svg''\<rparr>) init)
     = Inl (Error ''QR code element not found'')"
proof -
  have d: "data (hello\<lparr>format := Some ''svg''\<rparr>) = Some ''Hello World''"
    "format (hello\<lparr>format := Some ''svg''\<rparr>) = Some ''svg''"
    by (simp_all add: hello_def no_options_def)
  show ?thesis
    using svg_serialized_or_missing[where w=base_world and s=init and m="''<svg></svg>''", OF _ d(1) _ d(2)]
      svg_serialized_or_missing[where w=accented and s=init and m="''<svg>'' @ [CHR 0xE9] @ ''</svg>''",
        OF _ d(1) _ d(2)]
      svg_serialized_or_missing[where w=no_svg and s=init, OF _ d(1) _ d(2)]
      svg_serialized_or_missing[where w=no_container and s=init, OF _ d(1) _ d(2)]
    by (simp add: base_world_page no_svg_page no_container_page accented_page)
qed






end
